theory Spec2Isabelle
  imports Main "HOL-Library.AList" "HOL-Library.Multiset"
begin

section \<open>The room document (src/src/App.tsx, first listing)\<close>

text \<open>
  The document-store variant keeps one \<open>Room\<close> document per game in the remote store; every
  signed-in browser holds a copy (\<open>room\<close>) and writes field updates back with \<open>updateDoc\<close>.
  A JavaScript object used as a dictionary (\<open>Record<string, Player>\<close>) is an association
  list in key order: \<open>Object.keys\<close> is \<open>map fst\<close>, \<open>Object.values\<close> is \<open>map snd\<close>, writing a
  key replaces its entry in place or appends a new one (\<open>AList.update\<close>).
  Functions that await the store are modelled at the moment their update is applied, with the
  browser's copy equal to the stored document unless a second argument says otherwise.
\<close>

datatype error = TypeError | InvalidCharacterError | Error string | AuthError string | StoreError string

datatype RoomPhase = Lobby | Playing | Voting | Result

record Player =
  name :: string
  score :: int
  lastScoreGain :: int
  role :: string
  isReady :: bool
  passedTurn :: "string list"

text \<open>The second listing of App.tsx (from line 1300) adds one flag to every player.\<close>

record PlayerV2 = Player +
  isRoleRevealed :: bool

record ChatMessage =
  senderId :: "string option"
  recipientId :: "string option"
  sender :: string
  msg :: string
  time :: nat

record HistoryEntry =
  date :: string
  imposters :: string
  word_h :: string
  result_h :: string
  duration :: nat

record 'p Room =
  id_room :: string
  hostId :: string
  state :: RoomPhase
  category :: string
  word :: string
  imposterIds :: "string list"
  imposterCount :: int
  round :: nat
  maxRounds :: nat
  players :: "(string \<times> 'p) list"
  turnOrder :: "string list"
  currentTurnIndex :: nat
  votes :: "(string \<times> string) list"
  chats :: "ChatMessage list"
  historyLog :: "HistoryEntry list"

subsection \<open>Platform functions\<close>

text \<open>Firestore's \<open>arrayUnion\<close> appends an element that the array does not hold yet.\<close>

definition arrayUnion :: "'a list \<Rightarrow> 'a \<Rightarrow> 'a list" where
  "arrayUnion xs x = (if x \<in> set xs then xs else xs @ [x])"

text \<open>\<open>Array.prototype.slice(0, e)\<close>: a negative end counts from the end of the array.\<close>

definition slice0 :: "'a list \<Rightarrow> int \<Rightarrow> 'a list" where
  "slice0 xs e = (if e < 0 then take (nat (int (length xs) + e)) xs else take (nat e) xs)"

text \<open>
  \<open>xs.sort(() => Math.random() - 0.5)\<close> rearranges the array in an order that depends on the
  random source. The draws are a parameter: each draw picks the next element among those
  still left, so every list of draws gives a rearrangement and every rearrangement has its
  draws.
\<close>

fun shuffle_by :: "nat list \<Rightarrow> 'a list \<Rightarrow> 'a list" where
  "shuffle_by rs [] = []"
| "shuffle_by [] xs = xs"
| "shuffle_by (r # rs) xs =
     (let i = r mod length xs in xs ! i # shuffle_by rs (take i xs @ drop (Suc i) xs))"

text \<open>\<open>Array.prototype.join\<close> and the decimal rendering of an integer in a template string.\<close>

fun join :: "string \<Rightarrow> string list \<Rightarrow> string" where
  "join sep [] = []"
| "join sep [x] = x"
| "join sep (x # y # ys) = x @ sep @ join sep (y # ys)"

fun digits :: "nat \<Rightarrow> string" where
  "digits n = (if n < 10 then [char_of (48 + n)]
               else digits (n div 10) @ [char_of (48 + n mod 10)])"

definition show_int :: "int \<Rightarrow> string" where
  "show_int i = (if i < 0 then CHR ''-'' # digits (nat (- i)) else digits (nat i))"

subsection \<open>Constants\<close>

definition CATEGORIES :: "(string \<times> string list) list" where
  "CATEGORIES =
    [(''Food'', [''Pizza'', ''Sushi'', ''Burger'', ''Taco'', ''Pasta'', ''Ice Cream'', ''Steak'',
                 ''Salad'', ''Pancake'', ''Waffle'']),
     (''Animals'', [''Lion'', ''Penguin'', ''Elephant'', ''Kangaroo'', ''Dolphin'', ''Tiger'',
                    ''Giraffe'', ''Monkey'', ''Bear'', ''Wolf'']),
     (''Locations'', [''Hospital'', ''School'', ''Beach'', ''Space Station'', ''Supermarket'',
                      ''Cinema'', ''Library'', ''Bank'', ''Casino'', ''Museum'']),
     (''Professions'', [''Doctor'', ''Teacher'', ''Pilot'', ''Chef'', ''Astronaut'', ''Police'',
                        ''Artist'', ''Engineer'', ''Farmer'', ''Lawyer'']),
     (''Movies'', [''Inception'', ''Titanic'', ''Avatar'', ''Matrix'', ''Jaws'', ''Gladiator'',
                   ''Alien'', ''Rocky'', ''Terminator'', ''Halloween'']),
     (''Superheroes'', [''Batman'', ''Superman'', ''Spiderman'', ''Iron Man'', ''Wonder Woman'',
                        ''Flash'', ''Thor'', ''Hulk'', ''Wolverine'', ''Aquaman'']),
     (''Myths'', [''Zeus'', ''Hercules'', ''Medusa'', ''Dragon'', ''Unicorn'', ''Phoenix'',
                  ''Vampire'', ''Werewolf'', ''Kraken'', ''Cyclops'']),
     (''Sports'', [''Soccer'', ''Basketball'', ''Tennis'', ''Baseball'', ''Golf'', ''Boxing'',
                   ''Swimming'', ''Cricket'', ''Rugby'', ''Volleyball''])]"

definition food_words :: "string list" where
  "food_words = (case map_of CATEGORIES ''Food'' of Some ws \<Rightarrow> ws | None \<Rightarrow> [])"

subsection \<open>Game actions\<close>

text \<open>The player object literal of \<open>createRoom\<close> and \<open>joinRoom\<close>.\<close>

definition freshPlayer :: "string \<Rightarrow> Player" where
  "freshPlayer n =
     \<lparr>name = n, score = 0, lastScoreGain = 0, role = [], isReady = False, passedTurn = []\<rparr>"

definition createRoom :: "string \<Rightarrow> string \<Rightarrow> string \<Rightarrow> Player Room" where
  "createRoom uid profileName newId =
     \<lparr>id_room = newId, hostId = uid, state = Lobby, category = ''Food'', word = [],
      imposterIds = [], imposterCount = 1, round = 1, maxRounds = 3,
      players = [(uid, freshPlayer profileName)],
      turnOrder = [], currentTurnIndex = 0, votes = [], chats = [], historyLog = []\<rparr>"

text \<open>
  \<open>joinRoom\<close>, once the room document is found: the update writes the field
  \<open>players.<uid>\<close>, whatever the document holds there.
\<close>

definition joinRoom :: "string \<Rightarrow> string \<Rightarrow> Player Room \<Rightarrow> Player Room" where
  "joinRoom uid profileName room =
     room\<lparr>players := AList.update uid (freshPlayer profileName) (players room)\<rparr>"

text \<open>The random draws and the clock reading that \<open>startGame\<close> consumes.\<close>

record StartEnv =
  wordDraw :: nat
  imposterDraws :: "nat list"
  orderDraws :: "nat list"
  startedAt :: nat

definition startGame :: "StartEnv \<Rightarrow> ('a Player_scheme) Room \<Rightarrow> ('a Player_scheme) Room" where
  "startGame env room =
     (let pIds = map fst (players room);
          words = (case map_of CATEGORIES (category room) of Some ws \<Rightarrow> ws
                   | None \<Rightarrow> food_words);
          secretWord = words ! (wordDraw env mod length words);
          shuffled = shuffle_by (imposterDraws env) pIds;
          half = int (length pIds) div 2;
          count = min (if imposterCount room = 0 then 1 else imposterCount room)
                      (if half = 0 then 1 else half);
          imposterIds' = slice0 shuffled count;
          updatedPlayers = map (\<lambda>(pid, p).
              (pid, p\<lparr>role := (if pid \<in> set imposterIds' then ''Imposter'' else ''Crew''),
                      passedTurn := []\<rparr>)) (players room)
      in room\<lparr>state := Playing, word := secretWord, imposterIds := imposterIds',
              players := updatedPlayers, turnOrder := shuffle_by (orderDraws env) pIds,
              currentTurnIndex := 0, votes := [],
              chats := arrayUnion (chats room)
                \<lparr>senderId = None, recipientId = None, sender = ''System'',
                 msg = ''Game Started! '' @ show_int count @ '' Imposter(s) are among us...'',
                 time = startedAt env\<rparr>\<rparr>)"

text \<open>
  \<open>nextTurn\<close> computes the update from the browser's copy \<open>room\<close> and applies it to the stored
  document \<open>doc\<close>; the \<open>players\<close> field is replaced as a whole.
\<close>

definition nextTurn :: "('a Player_scheme) Room \<Rightarrow> ('a Player_scheme) Room \<Rightarrow> ('a Player_scheme) Room" where
  "nextTurn room doc =
     (let nextIndex = currentTurnIndex room + 1;
          overflow = (nextIndex \<ge> length (turnOrder room));
          nextRound = (if overflow then round room + 1 else round room);
          nextState = (if overflow \<and> nextRound > maxRounds room then Voting else Playing)
      in doc\<lparr>currentTurnIndex := (if overflow then 0 else nextIndex),
             round := nextRound,
             state := nextState,
             players := map (\<lambda>(pid, p). (pid, p\<lparr>passedTurn := []\<rparr>)) (players room)\<rparr>)"

text \<open>
  \<open>passTurn\<close>: reading \<open>passedTurn\<close> of a player that the room does not hold raises a
  TypeError. The first update writes \<open>players.<targetId>.passedTurn\<close>; \<open>nextTurn\<close> then still
  runs on the copy \<open>room\<close> of before that write.
\<close>

definition passTurn ::
  "string \<Rightarrow> string \<Rightarrow> ('a Player_scheme) Room \<Rightarrow> error + ('a Player_scheme) Room" where
  "passTurn uid targetId room =
     (case map_of (players room) targetId of
        None \<Rightarrow> Inl TypeError
      | Some targetPlayer \<Rightarrow>
          (let currentlyPassedBy = passedTurn targetPlayer in
           if uid \<in> set currentlyPassedBy then Inr room
           else
             (let newPassedBy = currentlyPassedBy @ [uid];
                  doc = room\<lparr>players :=
                     AList.update targetId (targetPlayer\<lparr>passedTurn := newPassedBy\<rparr>)
                       (players room)\<rparr>;
                  totalPlayers = length (players room)
              in if 2 * length newPassedBy > totalPlayers then Inr (nextTurn room doc)
                 else Inr doc)))"

definition castVote :: "string \<Rightarrow> string \<Rightarrow> 'p Room \<Rightarrow> 'p Room" where
  "castVote uid targetId room = room\<lparr>votes := AList.update uid targetId (votes room)\<rparr>"

definition resetGame :: "'p Room \<Rightarrow> 'p Room" where
  "resetGame room =
     room\<lparr>state := Lobby, round := 1, votes := [], imposterIds := [], word := [],
          turnOrder := [], currentTurnIndex := 0\<rparr>"

subsection \<open>Vote tally and results\<close>

text \<open>
  \<open>calculateResults\<close> counts the votes per target in a dictionary, then walks its entries
  keeping the highest count seen and the target holding it alone.
\<close>

definition voteCounts :: "(string \<times> string) list \<Rightarrow> (string \<times> nat) list" where
  "voteCounts allVotes =
     fold (\<lambda>vId vc. AList.update vId ((case map_of vc vId of None \<Rightarrow> 0 | Some c \<Rightarrow> c) + 1) vc)
          (map snd allVotes) []"

definition tally_step :: "string \<times> nat \<Rightarrow> nat \<times> string option \<Rightarrow> nat \<times> string option" where
  "tally_step e acc =
     (case e of (vId, cnt) \<Rightarrow> case acc of (maxVotes, votedOutId) \<Rightarrow>
        if cnt > maxVotes then (cnt, Some vId)
        else if cnt = maxVotes then (maxVotes, None)
        else (maxVotes, votedOutId))"

definition votedOut :: "(string \<times> string) list \<Rightarrow> string option" where
  "votedOut allVotes = snd (fold tally_step (voteCounts allVotes) (0, None))"

text \<open>\<open>votedOutId && rData.imposterIds.includes(votedOutId)\<close>: the empty string is falsy.\<close>

definition isImposterCaught :: "'p Room \<Rightarrow> bool" where
  "isImposterCaught rData =
     (case votedOut (votes rData) of None \<Rightarrow> False
      | Some v \<Rightarrow> v \<noteq> [] \<and> v \<in> set (imposterIds rData))"

text \<open>\<open>rData.imposterIds.map(id => rData.players[id]?.name).join(', ')\<close>\<close>

definition imposterNames :: "('a Player_scheme) Room \<Rightarrow> string" where
  "imposterNames rData =
     join '', '' (map (\<lambda>i. case map_of (players rData) i of None \<Rightarrow> [] | Some p \<Rightarrow> name p)
                      (imposterIds rData))"

text \<open>
  The loop over \<open>rData.imposterIds\<close> of the evasion branch: each id adds 20 to the entry of
  that id, and an id without an entry raises a TypeError.
\<close>

fun awardImposters ::
  "string list \<Rightarrow> (string \<times> 'a Player_scheme) list \<Rightarrow> error + (string \<times> 'a Player_scheme) list" where
  "awardImposters [] ps = Inr ps"
| "awardImposters (i # is) ps =
     (case map_of ps i of
        None \<Rightarrow> Inl TypeError
      | Some p \<Rightarrow> awardImposters is (AList.update i (p\<lparr>score := score p + 20, lastScoreGain := 20\<rparr>) ps))"

text \<open>The clock readings of \<open>calculateResults\<close>.\<close>

record ResultEnv =
  isoDate :: string
  roomTime :: nat
  resultAt :: nat

definition publishResult ::
  "ResultEnv \<Rightarrow> string \<Rightarrow> (string \<times> 'a Player_scheme) list \<Rightarrow> ('a Player_scheme) Room
     \<Rightarrow> ('a Player_scheme) Room" where
  "publishResult env winMsg updatedPlayers rData =
     rData\<lparr>state := Result, players := updatedPlayers,
           historyLog := arrayUnion (historyLog rData)
             \<lparr>date = isoDate env, imposters = imposterNames rData, word_h = word rData,
              result_h = winMsg, duration = roomTime env\<rparr>,
           chats := arrayUnion (chats rData)
             \<lparr>senderId = None, recipientId = None, sender = ''System'', msg = winMsg,
              time = resultAt env\<rparr>\<rparr>"

definition calculateResults ::
  "ResultEnv \<Rightarrow> ('a Player_scheme) Room \<Rightarrow> error + ('a Player_scheme) Room" where
  "calculateResults env rData =
     (let votedOutId = votedOut (votes rData);
          cleared = map (\<lambda>(pid, p). (pid, p\<lparr>lastScoreGain := 0\<rparr>)) (players rData)
      in if isImposterCaught rData then
           (case votedOutId of
              None \<Rightarrow> Inl TypeError
            | Some v \<Rightarrow>
               (case map_of (players rData) v of
                  None \<Rightarrow> Inl TypeError
                | Some vp \<Rightarrow>
                    Inr (publishResult env
                      (''Crew Wins! The Imposter ('' @ name vp @ '') was caught!'')
                      (map (\<lambda>(pid, p).
                          if pid \<notin> set (imposterIds rData)
                          then (pid, p\<lparr>score := score p + 10, lastScoreGain := 10\<rparr>)
                          else (pid, p)) cleared)
                      rData)))
         else
           (case awardImposters (imposterIds rData) cleared of
              Inl e \<Rightarrow> Inl e
            | Inr updatedPlayers \<Rightarrow>
                Inr (publishResult env
                  (''Imposter Wins! They evaded capture. (It was '' @ imposterNames rData @ '')'')
                  updatedPlayers rData)))"

text \<open>
  The room listener (\<open>onSnapshot\<close>, lines 448-460) runs in every browser on every new
  document; \<open>None\<close> means that it writes nothing.
\<close>

definition onRoomSnapshot ::
  "ResultEnv \<Rightarrow> string \<Rightarrow> ('a Player_scheme) Room \<Rightarrow> (error + ('a Player_scheme) Room) option" where
  "onRoomSnapshot env uid rData =
     (if uid = hostId rData \<and> state rData = Voting
         \<and> length (votes rData) \<ge> length (players rData)
      then Some (calculateResults env rData) else None)"

subsection \<open>The controls that issue the actions\<close>

text \<open>
  The action functions are closures of the component; they run only from the controls that
  the component renders. Each control is modelled by its render condition and its handler.
  The PASS and DONE buttons (lines 1014-1032) exist only in the playing panel, beside the
  entry of \<open>turnOrder\<close> at \<open>currentTurnIndex\<close>, and only while the user is not in that player's
  \<open>passedTurn\<close>.
\<close>

definition passOffered :: "string \<Rightarrow> string \<Rightarrow> ('a Player_scheme) Room \<Rightarrow> bool" where
  "passOffered uid pId room =
     (state room = Playing
      \<and> currentTurnIndex room < length (turnOrder room)
      \<and> turnOrder room ! currentTurnIndex room = pId
      \<and> (case map_of (players room) pId of None \<Rightarrow> False
          | Some p \<Rightarrow> uid \<notin> set (passedTurn p)))"

definition pressPass ::
  "string \<Rightarrow> string \<Rightarrow> ('a Player_scheme) Room \<Rightarrow> error + ('a Player_scheme) Room" where
  "pressPass uid pId room = (if passOffered uid pId room then passTurn uid pId room else Inr room)"

text \<open>The vote buttons (lines 1043-1061): one per player, in the voting panel.\<close>

definition pressVote :: "string \<Rightarrow> string \<Rightarrow> 'p Room \<Rightarrow> 'p Room" where
  "pressVote uid targetId room =
     (if state room = Voting \<and> targetId \<in> set (map fst (players room))
      then castVote uid targetId room else room)"

text \<open>
  The lobby panel (lines 938-989): both selects are disabled unless the user is the host;
  the start slider and, in the result panel (lines 1117-1179), the PLAY AGAIN button are
  rendered for the host only.
\<close>

definition selectCategory :: "string \<Rightarrow> string \<Rightarrow> 'p Room \<Rightarrow> 'p Room" where
  "selectCategory uid c room =
     (if state room = Lobby \<and> uid = hostId room \<and> c \<in> set (map fst CATEGORIES)
      then room\<lparr>category := c\<rparr> else room)"

definition selectImposterCount :: "string \<Rightarrow> int \<Rightarrow> 'p Room \<Rightarrow> 'p Room" where
  "selectImposterCount uid n room =
     (if state room = Lobby \<and> uid = hostId room \<and> n \<in> {1, 2, 3}
      then room\<lparr>imposterCount := n\<rparr> else room)"

definition swipeStart :: "StartEnv \<Rightarrow> string \<Rightarrow> ('a Player_scheme) Room \<Rightarrow> ('a Player_scheme) Room" where
  "swipeStart env uid room =
     (if state room = Lobby \<and> uid = hostId room then startGame env room else room)"

definition pressPlayAgain :: "string \<Rightarrow> 'p Room \<Rightarrow> 'p Room" where
  "pressPlayAgain uid room =
     (if state room = Result \<and> uid = hostId room then resetGame room else room)"

text \<open>A turn advance issued by a browser whose copy is the stored document.\<close>

definition advance :: "('a Player_scheme) Room \<Rightarrow> ('a Player_scheme) Room" where
  "advance r = nextTurn r r"

text \<open>\<open>sendChat\<close> (lines 628-642): a private message to the selected user.\<close>

definition sendChat ::
  "string \<Rightarrow> string \<Rightarrow> string option \<Rightarrow> string \<Rightarrow> nat \<Rightarrow> 'p Room \<Rightarrow> 'p Room" where
  "sendChat uid profileName selectedChatUser chatMsg now room =
     (case selectedChatUser of
        None \<Rightarrow> room
      | Some rcp \<Rightarrow>
          if list_all (\<lambda>c. c \<in> set [CHR 0x09, CHR 0x0A, CHR 0x0B, CHR 0x0C, CHR 0x0D, CHR 0x20, CHR 0xA0])
               chatMsg
          then room
          else room\<lparr>chats := arrayUnion (chats room)
                 \<lparr>senderId = Some uid, recipientId = Some rcp, sender = profileName,
                  msg = chatMsg, time = now\<rparr>\<rparr>)"

subsection \<open>Refined scoring (src/src/App.tsx, second listing, lines 2124-2220)\<close>

text \<open>
  The second listing keeps the tally and replaces the flat awards by a gain per player.
  \<open>scoreGain\<close> is the body of its loop over the players; the update of the users' all-time
  statistics, which lives in another collection, is left out.
\<close>

definition scoreGain :: "('a Player_scheme) Room \<Rightarrow> string \<Rightarrow> int" where
  "scoreGain rData pid =
     (let votedOutId = votedOut (votes rData);
          majorityCount = length (players rData) div 2 + 1;
          myVote = map_of (votes rData) pid;
          isCorrectVote = (case myVote of None \<Rightarrow> False
                           | Some v \<Rightarrow> v \<noteq> [] \<and> v \<in> set (imposterIds rData));
          isImposter = (pid \<in> set (imposterIds rData))
      in if \<not> isImposter then
           (if isCorrectVote then 2
            else (case myVote of None \<Rightarrow> 0 | Some v \<Rightarrow> if v \<noteq> [] then - 1 else 0))
           + (case votedOutId of
                None \<Rightarrow> 0
              | Some out \<Rightarrow>
                  if out \<noteq> [] \<and> myVote = Some out
                     \<and> (case map_of (voteCounts (votes rData)) out of None \<Rightarrow> False
                         | Some c \<Rightarrow> c \<ge> majorityCount)
                  then 1 else 0)
         else (if \<not> isImposterCaught rData then 3 else 0))"

definition calculateResults2 ::
  "ResultEnv \<Rightarrow> ('a Player_scheme) Room \<Rightarrow> error + ('a Player_scheme) Room" where
  "calculateResults2 env rData =
     (let updatedPlayers = map (\<lambda>(pid, p).
            (pid, p\<lparr>lastScoreGain := scoreGain rData pid,
                    score := score p + scoreGain rData pid\<rparr>)) (players rData)
      in if isImposterCaught rData then
           (case votedOut (votes rData) of
              None \<Rightarrow> Inl TypeError
            | Some v \<Rightarrow>
               (case map_of (players rData) v of
                  None \<Rightarrow> Inl TypeError
                | Some vp \<Rightarrow>
                    Inr (publishResult env
                      (''Crew Wins! The Imposter ('' @ name vp @ '') was caught!'')
                      updatedPlayers rData)))
         else
           Inr (publishResult env
             (''Imposter Wins! They evaded capture. (It was '' @ imposterNames rData @ '')'')
             updatedPlayers rData))"

section \<open>The peer-mesh variant (src/unnamed/part_001, class GameManager)\<close>

text \<open>
  Each browser holds one \<open>GameManager\<close>; the host's holds the authoritative \<open>RoomState\<close> and
  sends it to every connection after each change (\<open>broadcastState\<close>), the others replace
  theirs by what they receive. The connections themselves are not modelled: \<open>handleMessage\<close>
  is the function from the manager and a received message to the manager afterwards.
  Field names carry the suffix \<open>_m\<close> where the document-store variant uses the same name.
\<close>

datatype GameState = LOBBY | ROLES | PLAYING | VOTING | RESULTS

record PeerPlayer =
  id_m :: string
  name_m :: string
  isHost_m :: bool
  score_m :: int
  passedCount :: nat
  votedFor :: "string option"

record Message =
  sender_m :: string
  text_m :: string
  time_m :: nat

record RoomState =
  roomId :: string
  state_m :: GameState
  players_m :: "PeerPlayer list"
  messages :: "Message list"
  imposterId :: "string option"
  secretWord :: string
  currentTurnId :: "string option"
  round_m :: nat
  maxRounds_m :: nat
  startTime :: nat

record GameManager =
  room_state :: RoomState
  isHost :: bool
  myId :: string
  myName :: string

text \<open>The \<open>action\<close> string of a message together with the payload fields its branch reads.\<close>

datatype Action =
    JOIN string
  | CHAT string string
  | START_GAME string
  | PASS_TURN
  | VOTE string
  | OTHER string

datatype NetworkMessage =
    STATE_SYNC RoomState
  | CHAT_MSG string string
  | ACTION Action string

text \<open>\<open>Array.prototype.findIndex\<close>, with \<open>None\<close> for -1.\<close>

fun findIndex :: "('a \<Rightarrow> bool) \<Rightarrow> 'a list \<Rightarrow> nat option" where
  "findIndex P [] = None"
| "findIndex P (x # xs) = (if P x then Some 0 else map_option Suc (findIndex P xs))"


text \<open>
  \<open>startGame\<close>: \<open>draw\<close> stands for \<open>Math.random()\<close>. With no player, reading \<open>.id\<close> of
  \<open>players[0]\<close> raises a TypeError.
\<close>

definition startGame_m :: "nat \<Rightarrow> nat \<Rightarrow> string \<Rightarrow> GameManager \<Rightarrow> error + GameManager" where
  "startGame_m now draw w gm =
     (if \<not> isHost gm then Inr gm
      else
        (let s = room_state gm; ps = players_m s in
         case ps of
           [] \<Rightarrow> Inl TypeError
         | p0 # _ \<Rightarrow>
             Inr (gm\<lparr>room_state := s\<lparr>secretWord := w, state_m := ROLES,
                    imposterId := Some (id_m (ps ! (draw mod length ps))),
                    currentTurnId := Some (id_m p0),
                    startTime := now,
                    players_m := map (\<lambda>p. p\<lparr>passedCount := 0, votedFor := None\<rparr>) ps\<rparr>\<rparr>)))"

definition nextTurn_m :: "RoomState \<Rightarrow> error + RoomState" where
  "nextTurn_m s =
     (let idx = (case findIndex (\<lambda>p. Some (id_m p) = currentTurnId s) (players_m s) of
                   None \<Rightarrow> - 1 | Some i \<Rightarrow> int i);
          ps = map (\<lambda>p. p\<lparr>passedCount := 0\<rparr>) (players_m s)
      in if idx \<ge> int (length ps) - 1 then
           (if round_m s \<ge> maxRounds_m s then Inr (s\<lparr>players_m := ps, state_m := VOTING\<rparr>)
            else (case ps of
                    [] \<Rightarrow> Inl TypeError
                  | p0 # _ \<Rightarrow> Inr (s\<lparr>players_m := ps, round_m := round_m s + 1,
                                      currentTurnId := Some (id_m p0)\<rparr>)))
         else Inr (s\<lparr>players_m := ps, currentTurnId := Some (id_m (ps ! nat (idx + 1)))\<rparr>))"

definition calculateScores :: "RoomState \<Rightarrow> RoomState" where
  "calculateScores s =
     s\<lparr>players_m := map (\<lambda>p.
         (let p1 = (if Some (id_m p) \<noteq> imposterId s \<and> votedFor p \<noteq> None
                       \<and> votedFor p = imposterId s
                    then p\<lparr>score_m := score_m p + 10\<rparr> else p)
          in if Some (id_m p1) = imposterId s
                \<and> (case votedFor p1 of None \<Rightarrow> False | Some v \<Rightarrow> v \<noteq> [])
             then p1\<lparr>score_m := score_m p1 + 5\<rparr> else p1)) (players_m s)\<rparr>"

definition handleMessage :: "nat \<Rightarrow> nat \<Rightarrow> NetworkMessage \<Rightarrow> GameManager \<Rightarrow> error + GameManager" where
  "handleMessage now draw m gm =
     (case m of
        STATE_SYNC st \<Rightarrow> Inr (gm\<lparr>room_state := st\<rparr>)
      | CHAT_MSG t sid \<Rightarrow> Inr gm
      | ACTION a sid \<Rightarrow>
          if \<not> isHost gm then Inr gm
          else
            (let s = room_state gm in
             case a of
               JOIN n \<Rightarrow>
                 (if findIndex (\<lambda>p. id_m p = sid) (players_m s) = None
                  then Inr (gm\<lparr>room_state := s\<lparr>players_m := players_m s @
                         [\<lparr>id_m = sid, name_m = n, isHost_m = False, score_m = 0,
                           passedCount = 0, votedFor = None\<rparr>]\<rparr>\<rparr>)
                  else Inr gm)
             | CHAT n t \<Rightarrow>
                 Inr (gm\<lparr>room_state := s\<lparr>messages := messages s @
                        [\<lparr>sender_m = n, text_m = t, time_m = now\<rparr>]\<rparr>\<rparr>)
             | START_GAME w \<Rightarrow> startGame_m now draw w gm
             | PASS_TURN \<Rightarrow>
                 (case findIndex (\<lambda>p. Some (id_m p) = currentTurnId s) (players_m s) of
                    None \<Rightarrow> Inr gm
                  | Some i \<Rightarrow>
                      (let p = (players_m s ! i)\<lparr>passedCount := passedCount (players_m s ! i) + 1\<rparr>;
                           s1 = s\<lparr>players_m := (players_m s)[i := p]\<rparr>
                       in if passedCount p \<ge> 2
                          then (case nextTurn_m s1 of Inl e \<Rightarrow> Inl e
                                | Inr s2 \<Rightarrow> Inr (gm\<lparr>room_state := s2\<rparr>))
                          else Inr (gm\<lparr>room_state := s1\<rparr>)))
             | VOTE targetId \<Rightarrow>
                 (let ps = (case findIndex (\<lambda>p. id_m p = sid) (players_m s) of
                              None \<Rightarrow> players_m s
                            | Some i \<Rightarrow> (players_m s)[i := (players_m s ! i)\<lparr>votedFor := Some targetId\<rparr>]);
                      s1 = s\<lparr>players_m := ps\<rparr>
                  in if list_all (\<lambda>p. case votedFor p of None \<Rightarrow> False | Some v \<Rightarrow> v \<noteq> []) ps
                     then Inr (gm\<lparr>room_state := (calculateScores s1)\<lparr>state_m := RESULTS\<rparr>\<rparr>)
                     else Inr (gm\<lparr>room_state := s1\<rparr>))
             | OTHER x \<Rightarrow> Inr gm))"

section \<open>Sign-up and login (src/src/App.tsx, handleAuth, lines 487-512)\<close>

subsection \<open>The platform's Base64 functions\<close>








subsection \<open>The handler\<close>





section \<open>Rooms that a game can reach\<close>

text \<open>
  A room document starts with \<open>createRoom\<close> and changes only through the controls and the
  listener above, each applied by some signed-in user to the current document.
\<close>

inductive reachable :: "Player Room \<Rightarrow> bool" where
  created: "reachable (createRoom uid n rid)"
| joined: "reachable r \<Longrightarrow> reachable (joinRoom uid n r)"
| category_selected: "reachable r \<Longrightarrow> reachable (selectCategory uid c r)"
| count_selected: "reachable r \<Longrightarrow> reachable (selectImposterCount uid k r)"
| started: "reachable r \<Longrightarrow> reachable (swipeStart env uid r)"
| passed: "reachable r \<Longrightarrow> pressPass uid t r = Inr r' \<Longrightarrow> reachable r'"
| voted: "reachable r \<Longrightarrow> reachable (pressVote uid t r)"
| resulted: "reachable r \<Longrightarrow> onRoomSnapshot renv uid r = Some (Inr r') \<Longrightarrow> reachable r'"
| replayed: "reachable r \<Longrightarrow> reachable (pressPlayAgain uid r)"
| chatted: "reachable r \<Longrightarrow> reachable (sendChat uid n rcp m now r)"

subsection \<open>Example rooms\<close>

definition demo_lobby :: "Player Room" where
  "demo_lobby = joinRoom ''c'' ''Cy'' (joinRoom ''b'' ''Bo'' (createRoom ''a'' ''Ann'' ''ROOM01''))"

definition demo_env :: StartEnv where
  "demo_env = \<lparr>wordDraw = 4, imposterDraws = [2], orderDraws = [1, 1], startedAt = 1000\<rparr>"

definition demo_game :: "Player Room" where
  "demo_game = swipeStart demo_env ''a'' demo_lobby"

definition demo_lobby4 :: "Player Room" where
  "demo_lobby4 = selectImposterCount ''a'' 2 (joinRoom ''d'' ''Dee'' demo_lobby)"

definition demo_renv :: ResultEnv where
  "demo_renv = \<lparr>isoDate = ''2025-08-20T10:00:00.000Z'', roomTime = 300, resultAt = 2000\<rparr>"

definition demo_acked :: "Player Room" where
  "demo_acked = demo_game\<lparr>players := AList.update ''b''
       \<lparr>name = ''Bo'', score = 0, lastScoreGain = 0, role = ''Crew'', isReady = False,
        passedTurn = [''a'']\<rparr> (players demo_game)\<rparr>"

definition demo_voting :: "Player Room" where
  "demo_voting = demo_game\<lparr>state := Voting, round := 4\<rparr>"

definition demo_voted :: "Player Room" where
  "demo_voted = pressVote ''c'' ''a'' (pressVote ''b'' ''c'' (pressVote ''a'' ''c'' demo_voting))"

definition demo_result :: "Player Room" where
  "demo_result = (case onRoomSnapshot demo_renv ''a'' demo_voted of
                    Some (Inr r) \<Rightarrow> r | _ \<Rightarrow> demo_voted)"

definition demo_game4 :: "Player Room" where
  "demo_game4 = swipeStart demo_env ''a'' demo_lobby4"

definition demo_late :: "Player Room" where
  "demo_late = joinRoom ''d'' ''Dee'' demo_game"

subsection \<open>What every reachable room satisfies\<close>

definition room_inv :: "Player Room \<Rightarrow> bool" where
  "room_inv r =
     (distinct (map fst (players r)) \<and> players r \<noteq> []
      \<and> imposterCount r \<in> {1, 2, 3} \<and> maxRounds r = 3
      \<and> (state r = Lobby \<longrightarrow> round r = 1)
      \<and> (state r \<noteq> Lobby \<longrightarrow>
            1 \<le> length (imposterIds r)
            \<and> length (imposterIds r) \<le> max 1 (length (players r) div 2)
            \<and> set (imposterIds r) \<subseteq> set (map fst (players r))
            \<and> distinct (imposterIds r))
      \<and> (state r = Playing \<longrightarrow>
            currentTurnIndex r < length (turnOrder r)
            \<and> distinct (turnOrder r)
            \<and> set (turnOrder r) \<subseteq> set (map fst (players r))
            \<and> round r \<le> maxRounds r))"

definition demo_tied :: "Player Room" where
  "demo_tied = pressVote ''c'' ''c'' (pressVote ''b'' ''a'' (pressVote ''a'' ''b'' demo_voting))"

text \<open>A room of the second listing in the voting phase: \<open>c\<close> is the impostor, \<open>b\<close> is framed.\<close>

definition demo_framed :: "PlayerV2 Room" where
  "demo_framed =
     \<lparr>id_room = ''ROOM02'', hostId = ''a'', state = Voting, category = ''Food'',
      word = ''Taco'', imposterIds = [''c''], imposterCount = 1, round = 4, maxRounds = 3,
      players =
        [(''a'', \<lparr>name = ''Ann'', score = 5, lastScoreGain = 0, role = ''Crew'',
                  isReady = False, passedTurn = [], isRoleRevealed = True\<rparr>),
         (''b'', \<lparr>name = ''Bo'', score = 5, lastScoreGain = 0, role = ''Crew'',
                  isReady = False, passedTurn = [], isRoleRevealed = True\<rparr>),
         (''c'', \<lparr>name = ''Cy'', score = 5, lastScoreGain = 0, role = ''Imposter'',
                  isReady = False, passedTurn = [], isRoleRevealed = True\<rparr>),
         (''d'', \<lparr>name = ''Dee'', score = 5, lastScoreGain = 0, role = ''Crew'',
                  isReady = False, passedTurn = [], isRoleRevealed = True\<rparr>)],
      turnOrder = [''b'', ''c'', ''a'', ''d''], currentTurnIndex = 0,
      votes = [(''a'', ''b''), (''c'', ''b''), (''d'', ''b''), (''b'', ''c'')],
      chats = [], historyLog = []\<rparr>"



section \<open>The earlier listing (src/src/sounds.ts)\<close>

text \<open>
  The file sounds.ts holds an earlier listing of the same component (a single \<open>imposterId\<close>,
  players without \<open>lastScoreGain\<close>). Its \<open>nextTurn\<close> (lines 736-757, and again 1858-1880)
  computes the same index, round and phase as the one of App.tsx and writes these three
  fields only; it reads and writes no other field, so it is modelled on the same room type.
\<close>

definition nextTurn_sounds :: "'p Room \<Rightarrow> 'p Room \<Rightarrow> 'p Room" where
  "nextTurn_sounds room doc =
     (let nextIndex = currentTurnIndex room + 1;
          overflow = (nextIndex \<ge> length (turnOrder room));
          nextRound = (if overflow then round room + 1 else round room);
          nextState = (if overflow \<and> nextRound > maxRounds room then Voting else Playing)
      in doc\<lparr>currentTurnIndex := (if overflow then 0 else nextIndex),
             round := nextRound,
             state := nextState\<rparr>)"

subsection \<open>Example sign-ups\<close>





section \<open>Facts about the platform functions\<close>

lemma mset_shuffle_by: "mset (shuffle_by rs xs) = mset xs"
proof (induction rs xs rule: shuffle_by.induct)
  case (3 r rs v va)
  let ?xs = "v # va"
  let ?i = "r mod length ?xs"
  have i: "?i < length ?xs" by simp
  have "mset ?xs = mset (take ?i ?xs @ ?xs ! ?i # drop (Suc ?i) ?xs)"
    using id_take_nth_drop[OF i] by simp
  also have "\<dots> = add_mset (?xs ! ?i) (mset (take ?i ?xs @ drop (Suc ?i) ?xs))"
    by simp
  finally show ?case using 3 by (simp add: Let_def)
qed simp_all

lemma set_shuffle_by: "set (shuffle_by rs xs) = set xs"
  by (metis mset_shuffle_by set_mset_mset)

lemma length_shuffle_by: "length (shuffle_by rs xs) = length xs"
  by (metis mset_shuffle_by size_mset)

lemma distinct_shuffle_by: "distinct (shuffle_by rs xs) = distinct xs"
  by (metis mset_shuffle_by mset_eq_imp_distinct_iff)

section \<open>Turn rotation\<close>

lemma nextTurn_fields:
  "currentTurnIndex (nextTurn room doc) =
     (if length (turnOrder room) \<le> currentTurnIndex room + 1 then 0 else currentTurnIndex room + 1)"
  "round (nextTurn room doc) =
     (if length (turnOrder room) \<le> currentTurnIndex room + 1 then round room + 1 else round room)"
  "state (nextTurn room doc) =
     (if length (turnOrder room) \<le> currentTurnIndex room + 1 \<and> maxRounds room < round room + 1
      then Voting else Playing)"
  "turnOrder (nextTurn room doc) = turnOrder doc"
  "maxRounds (nextTurn room doc) = maxRounds doc"
  "imposterIds (nextTurn room doc) = imposterIds doc"
  "imposterCount (nextTurn room doc) = imposterCount doc"
  "hostId (nextTurn room doc) = hostId doc"
  by (simp_all add: nextTurn_def Let_def)

lemma nextTurn_players:
  "players (nextTurn room doc) = map (\<lambda>(pid, p). (pid, p\<lparr>passedTurn := []\<rparr>)) (players room)"
  by (simp add: nextTurn_def Let_def)

lemma nextTurn_keys: "map fst (players (nextTurn room doc)) = map fst (players room)"
  by (simp add: nextTurn_players case_prod_unfold comp_def)


lemma advance_iter:
  assumes "length (turnOrder room) = n" "0 < n" "currentTurnIndex room = 0" "round room = 1"
  shows "currentTurnIndex ((advance ^^ k) room) = k mod n
       \<and> round ((advance ^^ k) room) = 1 + k div n
       \<and> turnOrder ((advance ^^ k) room) = turnOrder room
       \<and> maxRounds ((advance ^^ k) room) = maxRounds room"
proof (induction k)
  case 0
  then show ?case using assms by simp
next
  case (Suc k)
  have m: "k mod n < n" using assms(2) by simp
  show ?case
  proof (cases "Suc (k mod n) = n")
    case True
    then have "Suc k mod n = 0" "Suc k div n = Suc (k div n)"
      by (simp_all add: mod_Suc div_Suc)
    then show ?thesis using Suc True assms(1)
      by (simp add: advance_def nextTurn_fields)
  next
    case False
    then have "Suc k mod n = Suc (k mod n)" "Suc k div n = k div n"
      by (simp_all add: mod_Suc div_Suc)
    moreover have "Suc (k mod n) < n" using m False by simp
    ultimately show ?thesis using Suc assms(1)
      by (simp add: advance_def nextTurn_fields)
  qed
qed

text \<open>
  With \<open>n\<close> players in the turn order and \<open>m\<close> rounds, the phase stays \<open>Playing\<close> for the
  first \<open>n * m - 1\<close> advances and becomes \<open>Voting\<close> at advance number \<open>n * m\<close>.
\<close>

lemma advance_state:
  assumes "length (turnOrder room) = n" "0 < n" "currentTurnIndex room = 0" "round room = 1"
    and "maxRounds room = m"
  shows "Suc k < n * m \<Longrightarrow> state ((advance ^^ Suc k) room) = Playing"
    and "Suc k = n * m \<Longrightarrow> state ((advance ^^ Suc k) room) = Voting"
proof -
  note it = advance_iter[OF assms(1-4), of k]
  have st: "state ((advance ^^ Suc k) room) =
      (if Suc (k mod n) \<ge> n \<and> 1 + k div n + 1 > m then Voting else Playing)"
    using it assms(1,5) by (simp add: advance_def nextTurn_fields)
  have m: "k mod n < n" using assms(2) by simp
  { assume lt: "Suc k < n * m"
    have "\<not> (Suc (k mod n) \<ge> n \<and> 1 + k div n + 1 > m)"
    proof
      assume a: "Suc (k mod n) \<ge> n \<and> 1 + k div n + 1 > m"
      then have "Suc (k mod n) = n" using m by simp
      then have "Suc k = n * (k div n) + n"
        by (metis add_Suc_right mult_div_mod_eq)
      moreover have "m \<le> Suc (k div n)" using a by simp
      then have "n * m \<le> n * Suc (k div n)" by (rule mult_le_mono2)
      ultimately show False using lt by simp
    qed
    then show "state ((advance ^^ Suc k) room) = Playing" using st by simp }
  { assume eq: "Suc k = n * m"
    then have "Suc k mod n = 0" "Suc k div n = m" using assms(2) by simp_all
    then have "Suc (k mod n) = n" "Suc (k div n) = m"
      using assms(2) by (auto simp: mod_Suc div_Suc split: if_splits)
    then show "state ((advance ^^ Suc k) room) = Voting" using st by simp }
qed

lemma demo_game_eq: "demo_game =
  \<lparr>id_room = ''ROOM01'', hostId = ''a'', state = Playing,
    category = ''Food'', word = ''Pasta'', imposterIds = [''c''],
    imposterCount = 1, round = 1, maxRounds = 3,
    players =
      [(''a'', \<lparr>name = ''Ann'', score = 0, lastScoreGain = 0, role = ''Crew'',
                isReady = False, passedTurn = []\<rparr>),
       (''b'', \<lparr>name = ''Bo'', score = 0, lastScoreGain = 0, role = ''Crew'',
                isReady = False, passedTurn = []\<rparr>),
       (''c'', \<lparr>name = ''Cy'', score = 0, lastScoreGain = 0, role = ''Imposter'',
                isReady = False, passedTurn = []\<rparr>)],
    turnOrder = [''b'', ''c'', ''a''], currentTurnIndex = 0, votes = [],
    chats =
      [\<lparr>senderId = None, recipientId = None, sender = ''System'',
        msg = ''Game Started! 1 Imposter(s) are among us...'', time = 1000\<rparr>],
    historyLog = []\<rparr>"
  by code_simp

lemma demo_game_fields:
  "turnOrder demo_game = [''b'', ''c'', ''a'']" "maxRounds demo_game = 3"
  "round demo_game = 1" "currentTurnIndex demo_game = 0" "state demo_game = Playing"
  "hostId demo_game = ''a''"
  by (simp_all add: demo_game_eq)

text \<open>
  The \<open>nextTurn\<close> of App.tsx (lines 675-701). Every turn advance moves \<open>currentTurnIndex\<close> on by one; when that reaches the length of
  \<open>turnOrder\<close> the index returns to 0 and \<open>round\<close> grows by one; the phase becomes \<open>Voting\<close>
  when the new round exceeds \<open>maxRounds\<close> and is \<open>Playing\<close> otherwise; every player's
  \<open>passedTurn\<close> is emptied. With three players in the turn order and \<open>maxRounds = 3\<close>, the
  first eight advances of a game leave the phase \<open>Playing\<close> and the ninth makes it \<open>Voting\<close>.
\<close>

theorem nextTurn_rollover:
  "currentTurnIndex (nextTurn room doc) =
     (if length (turnOrder room) \<le> currentTurnIndex room + 1 then 0
      else currentTurnIndex room + 1)
   \<and> round (nextTurn room doc) =
     (if length (turnOrder room) \<le> currentTurnIndex room + 1 then round room + 1
      else round room)
   \<and> state (nextTurn room doc) =
     (if length (turnOrder room) \<le> currentTurnIndex room + 1 \<and> maxRounds room < round room + 1
      then Voting else Playing)
   \<and> (round room \<le> maxRounds room \<longrightarrow>
        (state (nextTurn room doc) = Voting) = (maxRounds room < round (nextTurn room doc)))
   \<and> (\<forall>(pid, p) \<in> set (players (nextTurn room doc)). passedTurn p = [])
   \<and> map fst (players (nextTurn room doc)) = map fst (players room)
   \<and> (length (turnOrder room) = 3 \<and> maxRounds room = 3
        \<and> currentTurnIndex room = 0 \<and> round room = 1 \<longrightarrow>
        (\<forall>k. 0 < k \<and> k < 9 \<longrightarrow> state ((advance ^^ k) room) = Playing)
        \<and> state ((advance ^^ 9) room) = Voting)"
proof -
  have nine: "(\<forall>k. 0 < k \<and> k < 9 \<longrightarrow> state ((advance ^^ k) room) = Playing)
        \<and> state ((advance ^^ 9) room) = Voting"
    if h: "length (turnOrder room) = 3" "maxRounds room = 3"
      "currentTurnIndex room = 0" "round room = 1"
  proof (intro conjI allI impI)
    fix k :: nat assume k: "0 < k \<and> k < 9"
    then obtain j where j: "k = Suc j" by (cases k) auto
    have "Suc j < 3 * 3" using k j by simp
    from advance_state(1)[OF h(1) _ h(3,4) h(2) this]
    show "state ((advance ^^ k) room) = Playing" using j by simp
  next
    have "Suc 8 = 3 * 3" by simp
    from advance_state(2)[OF h(1) _ h(3,4) h(2) this]
    show "state ((advance ^^ 9) room) = Voting" by (simp add: eval_nat_numeral)
  qed
  have cleared: "\<forall>(pid, p) \<in> set (players (nextTurn room doc)). passedTurn p = []"
    by (auto simp: nextTurn_players)
  show ?thesis using nine cleared nextTurn_keys[of room doc] by (simp add: nextTurn_fields)
qed

theorem nextTurn_rollover_witness:
  "length (turnOrder demo_game) = 3 \<and> maxRounds demo_game = 3
   \<and> currentTurnIndex demo_game = 0 \<and> round demo_game = 1
   \<and> round demo_game \<le> maxRounds demo_game
   \<and> state ((advance ^^ 1) demo_game) = Playing
   \<and> state ((advance ^^ 8) demo_game) = Playing
   \<and> state ((advance ^^ 9) demo_game) = Voting
   \<and> currentTurnIndex (nextTurn demo_game demo_game) = 1
   \<and> (state (nextTurn demo_game demo_game) = Voting)
       = (maxRounds demo_game < round (nextTurn demo_game demo_game))"
proof -
  have h: "length (turnOrder demo_game) = 3 \<and> maxRounds demo_game = 3
      \<and> currentTurnIndex demo_game = 0 \<and> round demo_game = 1"
    by (simp add: demo_game_fields)
  have le: "round demo_game \<le> maxRounds demo_game" by (simp add: demo_game_fields)
  note t = nextTurn_rollover[of demo_game demo_game]
  from t h have a: "\<forall>k. 0 < k \<and> k < 9 \<longrightarrow> state ((advance ^^ k) demo_game) = Playing"
    and b: "state ((advance ^^ 9) demo_game) = Voting" by blast+
  from a[rule_format, of 1] a[rule_format, of 8]
  have "state ((advance ^^ 1) demo_game) = Playing"
    "state ((advance ^^ 8) demo_game) = Playing" by simp_all
  moreover from t have "currentTurnIndex (nextTurn demo_game demo_game) = 1"
    by (simp add: demo_game_fields)
  moreover from t le have "(state (nextTurn demo_game demo_game) = Voting)
       = (maxRounds demo_game < round (nextTurn demo_game demo_game))" by blast
  ultimately show ?thesis using h le b by simp
qed

section \<open>Passing the turn\<close>




section \<open>Playing again\<close>

lemma demo_result_eq: "demo_result =
  \<lparr>id_room = ''ROOM01'', hostId = ''a'', state = Result,
    category = ''Food'', word = ''Pasta'', imposterIds = [''c''],
    imposterCount = 1, round = 4, maxRounds = 3,
    players =
      [(''a'', \<lparr>name = ''Ann'', score = 10, lastScoreGain = 10, role = ''Crew'',
                isReady = False, passedTurn = []\<rparr>),
       (''b'', \<lparr>name = ''Bo'', score = 10, lastScoreGain = 10, role = ''Crew'',
                isReady = False, passedTurn = []\<rparr>),
       (''c'', \<lparr>name = ''Cy'', score = 0, lastScoreGain = 0, role = ''Imposter'',
                isReady = False, passedTurn = []\<rparr>)],
    turnOrder = [''b'', ''c'', ''a''], currentTurnIndex = 0,
    votes = [(''a'', ''c''), (''b'', ''c''), (''c'', ''a'')],
    chats =
      [\<lparr>senderId = None, recipientId = None, sender = ''System'',
        msg = ''Game Started! 1 Imposter(s) are among us...'', time = 1000\<rparr>,
       \<lparr>senderId = None, recipientId = None, sender = ''System'',
        msg = ''Crew Wins! The Imposter (Cy) was caught!'', time = 2000\<rparr>],
    historyLog =
      [\<lparr>date = ''2025-08-20T10:00:00.000Z'', imposters = ''Cy'', word_h = ''Pasta'',
        result_h = ''Crew Wins! The Imposter (Cy) was caught!'', duration = 300\<rparr>]\<rparr>"
  by code_simp

text \<open>
  C8. PLAY AGAIN is offered to the host alone and in the result phase alone; pressed
  otherwise it changes nothing. It sets the phase to \<open>Lobby\<close>, \<open>round\<close> to its initial value 1,
  \<open>currentTurnIndex\<close> to 0, and empties \<open>votes\<close>, \<open>imposterIds\<close>, \<open>word\<close> and \<open>turnOrder\<close>;
  the players with their scores, the chat and the history log stay as they are.
\<close>

theorem resetGame_frame:
  "(\<not> (uid = hostId room \<and> state room = Result) \<longrightarrow> pressPlayAgain uid room = room)
   \<and> (uid = hostId room \<and> state room = Result \<longrightarrow>
        pressPlayAgain uid room = resetGame room)
   \<and> state (resetGame room) = Lobby \<and> round (resetGame room) = 1
   \<and> votes (resetGame room) = [] \<and> imposterIds (resetGame room) = []
   \<and> word (resetGame room) = [] \<and> turnOrder (resetGame room) = []
   \<and> currentTurnIndex (resetGame room) = 0
   \<and> players (resetGame room) = players room
   \<and> (\<forall>pid. map_option score (map_of (players (resetGame room)) pid)
             = map_option score (map_of (players room) pid))
   \<and> chats (resetGame room) = chats room \<and> historyLog (resetGame room) = historyLog room
   \<and> hostId (resetGame room) = hostId room"
  by (simp add: pressPlayAgain_def resetGame_def)

theorem resetGame_frame_witness:
  "''a'' = hostId demo_result \<and> state demo_result = Result
   \<and> pressPlayAgain ''a'' demo_result = resetGame demo_result
   \<and> state (pressPlayAgain ''a'' demo_result) = Lobby
   \<and> map_option score (map_of (players (pressPlayAgain ''a'' demo_result)) ''b'') = Some 10
   \<and> \<not> (''b'' = hostId demo_result \<and> state demo_result = Result)
   \<and> pressPlayAgain ''b'' demo_result = demo_result
   \<and> \<not> (''a'' = hostId demo_game \<and> state demo_game = Result)
   \<and> pressPlayAgain ''a'' demo_game = demo_game"
proof -
  have h: "''a'' = hostId demo_result \<and> state demo_result = Result"
    by (simp add: demo_result_eq)
  have nb: "\<not> (''b'' = hostId demo_result \<and> state demo_result = Result)"
    by (simp add: demo_result_eq)
  have ng: "\<not> (''a'' = hostId demo_game \<and> state demo_game = Result)"
    by (simp add: demo_game_fields)
  have s: "map_option score (map_of (players demo_result) ''b'') = Some 10"
    by (simp add: demo_result_eq)
  note t = resetGame_frame[of "''a''" demo_result]
  from t h have e: "pressPlayAgain ''a'' demo_result = resetGame demo_result" by blast
  from t have "state (resetGame demo_result) = Lobby"
    "map_option score (map_of (players (resetGame demo_result)) ''b'')
       = map_option score (map_of (players demo_result) ''b'')" by blast+
  with e s have "state (pressPlayAgain ''a'' demo_result) = Lobby"
    "map_option score (map_of (players (pressPlayAgain ''a'' demo_result)) ''b'') = Some 10"
    by simp_all
  moreover from resetGame_frame[of "''b''" demo_result] nb
  have "pressPlayAgain ''b'' demo_result = demo_result" by blast
  moreover from resetGame_frame[of "''a''" demo_game] ng
  have "pressPlayAgain ''a'' demo_game = demo_game" by blast
  ultimately show ?thesis using h nb ng e by simp
qed

section \<open>Turn rotation in the earlier listing\<close>

lemma nextTurn_sounds_fields:
  "currentTurnIndex (nextTurn_sounds room doc) = currentTurnIndex (nextTurn room doc')"
  "round (nextTurn_sounds room doc) = round (nextTurn room doc')"
  "state (nextTurn_sounds room doc) = state (nextTurn room doc')"
  "players (nextTurn_sounds room doc) = players doc"
  by (simp_all add: nextTurn_sounds_def nextTurn_def Let_def)

text \<open>
  C5 on the \<open>nextTurn\<close> of sounds.ts (lines 736-757): index, round and phase move as in
  App.tsx, but the acknowledgements stay. Bo holds the turn and Ann has acknowledged; after
  the advance Bo's \<open>passedTurn\<close> still holds Ann, where the \<open>nextTurn\<close> of App.tsx empties it.
\<close>

theorem nextTurn_sounds_keeps_acknowledgements:
  "map_option passedTurn (map_of (players demo_acked) ''b'') = Some [''a'']
   \<and> currentTurnIndex demo_acked = 0
   \<and> currentTurnIndex (nextTurn_sounds demo_acked demo_acked) = 1
   \<and> round (nextTurn_sounds demo_acked demo_acked) = 1
   \<and> state (nextTurn_sounds demo_acked demo_acked) = Playing
   \<and> map_option passedTurn
        (map_of (players (nextTurn_sounds demo_acked demo_acked)) ''b'') = Some [''a'']
   \<and> map_option passedTurn
        (map_of (players (nextTurn demo_acked demo_acked)) ''b'') = Some []"
proof -
  have p: "players demo_acked =
      [(''a'', \<lparr>name = ''Ann'', score = 0, lastScoreGain = 0, role = ''Crew'',
                isReady = False, passedTurn = []\<rparr>),
       (''b'', \<lparr>name = ''Bo'', score = 0, lastScoreGain = 0, role = ''Crew'',
                isReady = False, passedTurn = [''a'']\<rparr>),
       (''c'', \<lparr>name = ''Cy'', score = 0, lastScoreGain = 0, role = ''Imposter'',
                isReady = False, passedTurn = []\<rparr>)]"
    by (simp add: demo_acked_def demo_game_eq)
  have f: "currentTurnIndex demo_acked = 0" "round demo_acked = 1" "maxRounds demo_acked = 3"
    "turnOrder demo_acked = [''b'', ''c'', ''a'']"
    by (simp_all add: demo_acked_def demo_game_eq)
  show ?thesis
    by (simp add: nextTurn_sounds_def nextTurn_players nextTurn_def Let_def p f)
qed

section \<open>Invariants of reachable rooms\<close>

lemma length_update:
  "length (AList.update k v al) = (if k \<in> set (map fst al) then length al else Suc (length al))"
  by (induction al) auto

lemma keys_update_present:
  "map_of al k = Some v' \<Longrightarrow> map fst (AList.update k v al) = map fst al"
  by (simp add: AList.update_keys) (metis map_of_eq_None_iff option.distinct(1) image_set)

lemma keys_awardImposters:
  "awardImposters is ps = Inr ps' \<Longrightarrow> map fst ps' = map fst ps"
proof (induction "is" arbitrary: ps)
  case Nil
  then show ?case by simp
next
  case (Cons i "is")
  then show ?case
    by (auto split: option.splits simp: keys_update_present)
qed

lemma keys_map_snd: "map fst (map (\<lambda>(pid, p). (pid, f pid p)) ps) = map fst ps"
  by (induction ps) auto

lemmas keys_simps = case_prod_unfold comp_def

lemma calculateResults_fields:
  assumes "calculateResults env r = Inr r'"
  shows "state r' = Result" "map fst (players r') = map fst (players r)"
    "imposterIds r' = imposterIds r" "imposterCount r' = imposterCount r"
    "maxRounds r' = maxRounds r" "turnOrder r' = turnOrder r"
proof -
  have k: "map fst (map (\<lambda>(pid, p). (pid, p\<lparr>lastScoreGain := 0\<rparr>)) (players r)) = map fst (players r)"
    by (simp add: keys_simps)
  have k2: "map fst (map (\<lambda>(pid, p). if pid \<notin> set (imposterIds r)
                          then (pid, p\<lparr>score := score p + 10, lastScoreGain := 10\<rparr>)
                          else (pid, p)) ps) = map fst ps" for ps :: "(string \<times> 'a Player_scheme) list"
    by (induction ps) auto
  from assms show "state r' = Result" "imposterIds r' = imposterIds r"
    "imposterCount r' = imposterCount r" "maxRounds r' = maxRounds r" "turnOrder r' = turnOrder r"
    by (auto simp: calculateResults_def publishResult_def Let_def
             split: if_splits option.splits sum.splits)
  from assms show "map fst (players r') = map fst (players r)"
    by (auto simp: calculateResults_def publishResult_def Let_def k k2
             split: if_splits option.splits sum.splits dest!: keys_awardImposters)
qed

lemma startGame_fields:
  "state (startGame env r) = Playing"
  "currentTurnIndex (startGame env r) = 0"
  "turnOrder (startGame env r) = shuffle_by (orderDraws env) (map fst (players r))"
  "round (startGame env r) = round r" "maxRounds (startGame env r) = maxRounds r"
  "imposterCount (startGame env r) = imposterCount r"
  "hostId (startGame env r) = hostId r"
  "imposterIds (startGame env r) =
     slice0 (shuffle_by (imposterDraws env) (map fst (players r)))
       (min (if imposterCount r = 0 then 1 else imposterCount r)
            (if int (length (players r)) div 2 = 0 then 1 else int (length (players r)) div 2))"
  by (simp_all add: startGame_def Let_def)

lemma startGame_keys: "map fst (players (startGame env r)) = map fst (players r)"
proof -
  have "players (startGame env r) =
      map (\<lambda>x. (fst x, snd x\<lparr>role := (if fst x \<in> set (imposterIds (startGame env r))
                                         then ''Imposter'' else ''Crew''),
                               passedTurn := []\<rparr>)) (players r)"
    by (simp add: startGame_def Let_def case_prod_unfold)
  then show ?thesis by (simp add: comp_def)
qed

lemma startGame_length: "length (players (startGame env r)) = length (players r)"
  using startGame_keys[of env r] by (metis length_map)

text \<open>The number of impostors that \<open>startGame\<close> selects.\<close>

lemma startGame_imposters:
  assumes "players r \<noteq> []" "1 \<le> imposterCount r"
  shows "int (length (imposterIds (startGame env r))) =
           min (imposterCount r) (max 1 (int (length (players r)) div 2))"
    and "set (imposterIds (startGame env r)) \<subseteq> set (map fst (players r))"
    and "distinct (map fst (players r)) \<Longrightarrow> distinct (imposterIds (startGame env r))"
proof -
  define n where "n = length (players r)"
  define d where "d = int n div 2"
  define h where "h = (if d = 0 then 1 else d)"
  define k where "k = (if imposterCount r = 0 then 1 else imposterCount r)"
  define S where "S = shuffle_by (imposterDraws env) (map fst (players r))"
  have n: "1 \<le> int n" using assms(1) by (cases "players r") (simp_all add: n_def)
  have d0: "0 \<le> d" and dn: "d \<le> int n" by (simp_all add: d_def)
  have h: "h = max 1 d" using d0 by (simp add: h_def max_def)
  have k: "k = imposterCount r" using assms(2) by (simp add: k_def)
  have h1: "1 \<le> h" and hn: "h \<le> int n" using n dn by (simp_all add: h)
  have c1: "1 \<le> min k h" using h1 assms(2) by (simp add: k)
  have cn: "min k h \<le> int n" using hn by (simp add: min_le_iff_disj)
  have "imposterIds (startGame env r) = slice0 S (min k h)"
    by (simp only: startGame_fields S_def k_def h_def d_def n_def)
  also have "\<dots> = take (nat (min k h)) S"
  proof -
    have "\<not> min k h < 0" using c1 by linarith
    then show ?thesis unfolding slice0_def by (simp only: if_False)
  qed
  finally have ids: "imposterIds (startGame env r) = take (nat (min k h)) S" .
  have lenS: "length S = n" by (simp add: S_def n_def length_shuffle_by)
  have "nat (min k h) \<le> n" using cn by linarith
  then have "length (imposterIds (startGame env r)) = nat (min k h)"
    by (simp add: ids lenS)
  then have "int (length (imposterIds (startGame env r))) = min k h"
    using c1 by simp
  then show "int (length (imposterIds (startGame env r))) =
           min (imposterCount r) (max 1 (int (length (players r)) div 2))"
    by (simp only: k h d_def n_def)
  have "set (take (nat (min k h)) S) \<subseteq> set S" by (rule set_take_subset)
  then show "set (imposterIds (startGame env r)) \<subseteq> set (map fst (players r))"
    by (simp only: ids S_def set_shuffle_by)
  show "distinct (imposterIds (startGame env r))" if "distinct (map fst (players r))"
    using that by (simp add: ids S_def distinct_shuffle_by)
qed

lemma room_inv_start:
  assumes "room_inv r" "state r = Lobby"
  shows "room_inv (startGame env r)"
proof -
  have p: "players r \<noteq> []" and ic: "1 \<le> imposterCount r" and d: "distinct (map fst (players r))"
    using assms(1) by (auto simp: room_inv_def)
  note im = startGame_imposters[OF p ic, of env]
  have len: "1 \<le> length (imposterIds (startGame env r))
      \<and> length (imposterIds (startGame env r)) \<le> max 1 (length (players r) div 2)"
    using im(1) ic by (simp add: zdiv_int) linarith
  have "players (startGame env r) \<noteq> []"
    using p startGame_length[of env r] by (metis length_0_conv)
  moreover have "0 < length (shuffle_by (orderDraws env) (map fst (players r)))"
    using p by (simp add: length_shuffle_by)
  ultimately show ?thesis
    using assms len im(2) im(3)[OF d]
    by (simp add: room_inv_def startGame_fields(1-7) startGame_keys startGame_length
                  distinct_shuffle_by set_shuffle_by)
qed

lemma room_inv_join:
  assumes "room_inv r"
  shows "room_inv (joinRoom uid n r)"
proof -
  have le: "length (players r) \<le> length (AList.update uid (freshPlayer n) (players r))"
    by (simp add: length_update)
  then have "length (players r) div 2
      \<le> length (AList.update uid (freshPlayer n) (players r)) div 2"
    by (rule div_le_mono)
  then have "max 1 (length (players r) div 2)
      \<le> max 1 (length (AList.update uid (freshPlayer n) (players r)) div 2)"
    by (rule max.mono[OF order_refl])
  moreover have "set (map fst (players r))
      \<subseteq> set (map fst (AList.update uid (freshPlayer n) (players r)))"
    by (auto simp: AList.update_keys)
  ultimately show ?thesis using assms
    by (auto simp: room_inv_def joinRoom_def AList.distinct_update)
qed

lemma room_inv_nextTurn:
  assumes "room_inv r" "state r = Playing" "map fst (players doc) = map fst (players r)"
    "doc = r\<lparr>players := players doc\<rparr>"
  shows "room_inv (nextTurn r doc)"
proof -
  note keys = nextTurn_keys[of r doc]
  have len: "length (players (nextTurn r doc)) = length (players r)"
    using keys by (metis length_map)
  have ne: "players (nextTurn r doc) \<noteq> []"
    using assms(1) len by (auto simp: room_inv_def)
  have doc: "turnOrder doc = turnOrder r" "maxRounds doc = maxRounds r"
    "imposterIds doc = imposterIds r" "imposterCount doc = imposterCount r"
    by (subst assms(4), simp)+
  show ?thesis using assms(1,2) keys len ne
    by (auto simp: room_inv_def nextTurn_fields doc)
qed

lemma room_inv_pass:
  assumes "room_inv r" "pressPass uid t r = Inr r'"
  shows "room_inv r'"
proof (cases "passOffered uid t r")
  case False
  then show ?thesis using assms by (simp add: pressPass_def)
next
  case True
  then obtain p where p: "map_of (players r) t = Some p" and st: "state r = Playing"
    and u: "uid \<notin> set (passedTurn p)"
    by (auto simp: passOffered_def split: option.splits)
  let ?doc = "r\<lparr>players := AList.update t (p\<lparr>passedTurn := passedTurn p @ [uid]\<rparr>) (players r)\<rparr>"
  have keys: "map fst (players ?doc) = map fst (players r)"
    using p by (simp add: keys_update_present)
  then have len: "length (players ?doc) = length (players r)" by (metis length_map)
  have inv_doc: "room_inv ?doc"
    using assms(1) keys len by (auto simp: room_inv_def)
  have "r' = ?doc \<or> r' = nextTurn r ?doc"
    using assms(2) True p u by (auto simp: pressPass_def passTurn_def Let_def split: if_splits)
  then show ?thesis
    using inv_doc room_inv_nextTurn[OF assms(1) st keys] by auto
qed

lemma room_inv_result:
  assumes "room_inv r" "onRoomSnapshot env uid r = Some (Inr r')"
  shows "room_inv r'"
proof -
  from assms(2) have c: "calculateResults env r = Inr r'" and v: "state r = Voting"
    by (auto simp: onRoomSnapshot_def split: if_splits)
  note f = calculateResults_fields[OF c]
  have len: "length (players r') = length (players r)" using f(2) by (metis length_map)
  have ne: "players r' \<noteq> []" using assms(1) len by (auto simp: room_inv_def)
  show ?thesis using assms(1) v f len ne by (auto simp: room_inv_def)
qed

lemma reachable_inv: "reachable r \<Longrightarrow> room_inv r"
proof (induction rule: reachable.induct)
  case (created uid n rid)
  show ?case by (simp add: room_inv_def createRoom_def)
next
  case (joined r uid n)
  then show ?case by (simp add: room_inv_join)
next
  case (category_selected r uid c)
  then show ?case by (auto simp: room_inv_def selectCategory_def)
next
  case (count_selected r uid k)
  then show ?case by (auto simp: room_inv_def selectImposterCount_def)
next
  case (started r env uid)
  then show ?case by (simp add: swipeStart_def room_inv_start)
next
  case (passed r uid t r')
  then show ?case by (simp add: room_inv_pass)
next
  case (voted r uid t)
  then show ?case by (auto simp: room_inv_def pressVote_def castVote_def)
next
  case (resulted r renv uid r')
  then show ?case by (simp add: room_inv_result)
next
  case (replayed r uid)
  then show ?case by (auto simp: room_inv_def pressPlayAgain_def resetGame_def)
next
  case (chatted r uid n rcp m now)
  then show ?case by (auto simp: room_inv_def sendChat_def split: option.splits)
qed

section \<open>The impostor set\<close>

lemma reachable_demo_lobby: "reachable demo_lobby"
  unfolding demo_lobby_def by (intro reachable.joined reachable.created)

lemma reachable_demo_game: "reachable demo_game"
  unfolding demo_game_def by (intro reachable.started reachable_demo_lobby)

lemma reachable_demo_game4: "reachable demo_game4"
  unfolding demo_game4_def demo_lobby4_def
  by (intro reachable.started reachable.count_selected reachable.joined reachable_demo_lobby)

lemma reachable_demo_late: "reachable demo_late"
  unfolding demo_late_def by (intro reachable.joined reachable_demo_game)

lemma demo_game4_eq: "demo_game4 =
  \<lparr>id_room = ''ROOM01'', hostId = ''a'', state = Playing,
    category = ''Food'', word = ''Pasta'', imposterIds = [''c'', ''a''],
    imposterCount = 2, round = 1, maxRounds = 3,
    players =
      [(''a'', \<lparr>name = ''Ann'', score = 0, lastScoreGain = 0, role = ''Imposter'',
                isReady = False, passedTurn = []\<rparr>),
       (''b'', \<lparr>name = ''Bo'', score = 0, lastScoreGain = 0, role = ''Crew'',
                isReady = False, passedTurn = []\<rparr>),
       (''c'', \<lparr>name = ''Cy'', score = 0, lastScoreGain = 0, role = ''Imposter'',
                isReady = False, passedTurn = []\<rparr>),
       (''d'', \<lparr>name = ''Dee'', score = 0, lastScoreGain = 0, role = ''Crew'',
                isReady = False, passedTurn = []\<rparr>)],
    turnOrder = [''b'', ''c'', ''a'', ''d''], currentTurnIndex = 0, votes = [],
    chats =
      [\<lparr>senderId = None, recipientId = None, sender = ''System'',
        msg = ''Game Started! 2 Imposter(s) are among us...'', time = 1000\<rparr>],
    historyLog = []\<rparr>"
  by code_simp

text \<open>
  C2 as stated fails: four players and an impostor count of two give two impostors, which
  is half of the players and not less.
\<close>

theorem imposter_half_counterexample:
  "reachable demo_game4 \<and> state demo_game4 = Playing
   \<and> length (imposterIds demo_game4) = 2 \<and> length (players demo_game4) = 4
   \<and> \<not> (2 * length (imposterIds demo_game4) < length (players demo_game4))"
  using reachable_demo_game4 by (simp add: demo_game4_eq)

text \<open>
  C2, amended. In every reachable room whose phase is \<open>Playing\<close>, \<open>Voting\<close> or \<open>Result\<close> the
  impostor ids are a duplicate-free list of player ids with at least one element and at most
  \<open>max 1 (|players| div 2)\<close> elements: never more than half of the players once there are
  two of them, but possibly exactly half. \<open>startGame\<close> selects
  \<open>min imposterCount (max 1 (|players| div 2))\<close> impostors.
\<close>

theorem imposter_bounds:
  "(reachable r \<and> state r \<in> {Playing, Voting, Result} \<longrightarrow>
      1 \<le> length (imposterIds r)
      \<and> length (imposterIds r) \<le> max 1 (length (players r) div 2)
      \<and> (2 \<le> length (players r) \<longrightarrow> 2 * length (imposterIds r) \<le> length (players r))
      \<and> set (imposterIds r) \<subseteq> set (map fst (players r))
      \<and> distinct (imposterIds r))
   \<and> (reachable r \<and> state r = Lobby \<longrightarrow>
      int (length (imposterIds (startGame env r)))
        = min (imposterCount r) (max 1 (int (length (players r)) div 2)))"
proof (intro conjI impI)
  assume a: "reachable r \<and> state r \<in> {Playing, Voting, Result}"
  then have inv: "room_inv r" by (simp add: reachable_inv)
  from a have nl: "state r \<noteq> Lobby" by auto
  from inv nl show "1 \<le> length (imposterIds r)"
    and le: "length (imposterIds r) \<le> max 1 (length (players r) div 2)"
    and "set (imposterIds r) \<subseteq> set (map fst (players r))"
    and "distinct (imposterIds r)"
    by (simp_all add: room_inv_def)
  show "2 * length (imposterIds r) \<le> length (players r)" if "2 \<le> length (players r)"
  proof -
    from that have "1 \<le> length (players r) div 2" by simp
    then have "max 1 (length (players r) div 2) = length (players r) div 2"
      by (rule max_absorb2)
    with le have "length (imposterIds r) \<le> length (players r) div 2" by simp
    then show ?thesis by simp
  qed
next
  assume a: "reachable r \<and> state r = Lobby"
  then have inv: "room_inv r" by (simp add: reachable_inv)
  then have "players r \<noteq> []" "1 \<le> imposterCount r" by (auto simp: room_inv_def)
  then show "int (length (imposterIds (startGame env r)))
        = min (imposterCount r) (max 1 (int (length (players r)) div 2))"
    by (rule startGame_imposters(1))
qed

theorem imposter_bounds_witness:
  "reachable demo_game4 \<and> state demo_game4 \<in> {Playing, Voting, Result}
   \<and> 2 \<le> length (players demo_game4)
   \<and> 1 \<le> length (imposterIds demo_game4)
   \<and> 2 * length (imposterIds demo_game4) \<le> length (players demo_game4)
   \<and> set (imposterIds demo_game4) \<subseteq> set (map fst (players demo_game4))
   \<and> reachable demo_lobby \<and> state demo_lobby = Lobby
   \<and> int (length (imposterIds (startGame demo_env demo_lobby)))
        = min (imposterCount demo_lobby) (max 1 (int (length (players demo_lobby)) div 2))"
proof -
  have h: "reachable demo_game4 \<and> state demo_game4 \<in> {Playing, Voting, Result}"
    using reachable_demo_game4 by (simp add: demo_game4_eq)
  have n: "2 \<le> length (players demo_game4)" by (simp add: demo_game4_eq)
  have l: "reachable demo_lobby \<and> state demo_lobby = Lobby"
    using reachable_demo_lobby by (simp add: demo_lobby_def joinRoom_def createRoom_def)
  from imposter_bounds[of demo_game4 demo_env] h n
  have "1 \<le> length (imposterIds demo_game4)
      \<and> 2 * length (imposterIds demo_game4) \<le> length (players demo_game4)
      \<and> set (imposterIds demo_game4) \<subseteq> set (map fst (players demo_game4))" by blast
  moreover from imposter_bounds[of demo_lobby demo_env] l
  have "int (length (imposterIds (startGame demo_env demo_lobby)))
        = min (imposterCount demo_lobby) (max 1 (int (length (players demo_lobby)) div 2))"
    by blast
  ultimately show ?thesis using h n l by blast
qed

section \<open>The turn pointer\<close>

lemma pressPass_frame:
  assumes "pressPass uid t r = Inr r'"
  shows "turnOrder r' = turnOrder r" "map fst (players r') = map fst (players r)"
proof -
  have "turnOrder r' = turnOrder r \<and> map fst (players r') = map fst (players r)"
  proof (cases "passOffered uid t r")
    case False
    then show ?thesis using assms by (simp add: pressPass_def)
  next
    case True
    then obtain p where p: "map_of (players r) t = Some p" and u: "uid \<notin> set (passedTurn p)"
      by (auto simp: passOffered_def split: option.splits)
    let ?doc = "r\<lparr>players := AList.update t (p\<lparr>passedTurn := passedTurn p @ [uid]\<rparr>) (players r)\<rparr>"
    have keys: "map fst (players ?doc) = map fst (players r)"
      using p by (simp add: keys_update_present)
    have "r' = ?doc \<or> r' = nextTurn r ?doc"
      using assms True p u by (auto simp: pressPass_def passTurn_def Let_def split: if_splits)
    then show ?thesis
    proof
      assume "r' = ?doc"
      then show ?thesis using keys by simp
    next
      assume "r' = nextTurn r ?doc"
      then show ?thesis by (simp add: nextTurn_fields nextTurn_keys)
    qed
  qed
  then show "turnOrder r' = turnOrder r" "map fst (players r') = map fst (players r)"
    by simp_all
qed

lemma demo_late_eq: "demo_late =
  \<lparr>id_room = ''ROOM01'', hostId = ''a'', state = Playing,
    category = ''Food'', word = ''Pasta'', imposterIds = [''c''],
    imposterCount = 1, round = 1, maxRounds = 3,
    players =
      [(''a'', \<lparr>name = ''Ann'', score = 0, lastScoreGain = 0, role = ''Crew'',
                isReady = False, passedTurn = []\<rparr>),
       (''b'', \<lparr>name = ''Bo'', score = 0, lastScoreGain = 0, role = ''Crew'',
                isReady = False, passedTurn = []\<rparr>),
       (''c'', \<lparr>name = ''Cy'', score = 0, lastScoreGain = 0, role = ''Imposter'',
                isReady = False, passedTurn = []\<rparr>),
       (''d'', \<lparr>name = ''Dee'', score = 0, lastScoreGain = 0, role = [],
                isReady = False, passedTurn = []\<rparr>)],
    turnOrder = [''b'', ''c'', ''a''], currentTurnIndex = 0, votes = [],
    chats =
      [\<lparr>senderId = None, recipientId = None, sender = ''System'',
        msg = ''Game Started! 1 Imposter(s) are among us...'', time = 1000\<rparr>],
    historyLog = []\<rparr>"
  by code_simp

text \<open>
  C7 as stated fails: a user who joins while the game is played becomes a player, and the
  turn order does not change.
\<close>

theorem turn_order_join_counterexample:
  "reachable demo_late \<and> state demo_late = Playing
   \<and> turnOrder demo_late = [''b'', ''c'', ''a'']
   \<and> map fst (players demo_late) = [''a'', ''b'', ''c'', ''d'']
   \<and> mset (turnOrder demo_late) \<noteq> mset (map fst (players demo_late))"
  using reachable_demo_late by (simp add: demo_late_eq)

text \<open>
  C7, amended. In every reachable room whose phase is \<open>Playing\<close>, \<open>currentTurnIndex\<close> is an
  index into \<open>turnOrder\<close>, and \<open>turnOrder\<close> is a duplicate-free list of player ids. When the
  host starts the game from the lobby, \<open>turnOrder\<close> is a permutation of the player ids and
  the index is 0; passing the turn changes neither \<open>turnOrder\<close> nor the player ids; a join
  leaves \<open>turnOrder\<close> as it is and appends the sender to the player ids unless the sender is
  a player already.
\<close>

theorem turn_pointer_valid:
  "(reachable r \<and> state r = Playing \<longrightarrow>
      currentTurnIndex r < length (turnOrder r)
      \<and> distinct (turnOrder r)
      \<and> set (turnOrder r) \<subseteq> set (map fst (players r)))
   \<and> (reachable r \<and> state r = Lobby \<and> uid = hostId r \<longrightarrow>
      state (swipeStart env uid r) = Playing
      \<and> currentTurnIndex (swipeStart env uid r) = 0
      \<and> mset (turnOrder (swipeStart env uid r)) = mset (map fst (players (swipeStart env uid r))))
   \<and> (\<forall>r'. pressPass uid t r = Inr r' \<longrightarrow>
         turnOrder r' = turnOrder r \<and> map fst (players r') = map fst (players r))
   \<and> turnOrder (joinRoom uid n r) = turnOrder r
   \<and> map fst (players (joinRoom uid n r)) =
       (if uid \<in> set (map fst (players r)) then map fst (players r)
        else map fst (players r) @ [uid])"
proof (intro conjI impI allI)
  assume a: "reachable r \<and> state r = Playing"
  then have "room_inv r" by (simp add: reachable_inv)
  with a show "currentTurnIndex r < length (turnOrder r)" "distinct (turnOrder r)"
    "set (turnOrder r) \<subseteq> set (map fst (players r))"
    by (simp_all add: room_inv_def)
next
  assume a: "reachable r \<and> state r = Lobby \<and> uid = hostId r"
  then have s: "swipeStart env uid r = startGame env r" by (simp add: swipeStart_def)
  show "state (swipeStart env uid r) = Playing" "currentTurnIndex (swipeStart env uid r) = 0"
    by (simp_all add: s startGame_fields)
  show "mset (turnOrder (swipeStart env uid r)) = mset (map fst (players (swipeStart env uid r)))"
    by (simp only: s startGame_fields startGame_keys mset_shuffle_by)
next
  fix r' assume "pressPass uid t r = Inr r'"
  then show "turnOrder r' = turnOrder r" "map fst (players r') = map fst (players r)"
    by (rule pressPass_frame)+
next
  show "turnOrder (joinRoom uid n r) = turnOrder r" by (simp add: joinRoom_def)
  show "map fst (players (joinRoom uid n r)) =
       (if uid \<in> set (map fst (players r)) then map fst (players r)
        else map fst (players r) @ [uid])"
    by (simp add: joinRoom_def AList.update_keys)
qed

theorem turn_pointer_valid_witness:
  "reachable demo_late \<and> state demo_late = Playing
   \<and> currentTurnIndex demo_late < length (turnOrder demo_late)
   \<and> set (turnOrder demo_late) \<subseteq> set (map fst (players demo_late))
   \<and> reachable demo_lobby \<and> state demo_lobby = Lobby \<and> ''a'' = hostId demo_lobby
   \<and> mset (turnOrder demo_game) = mset (map fst (players demo_game))
   \<and> pressPass ''a'' ''b'' demo_game = Inr demo_acked
   \<and> turnOrder demo_acked = turnOrder demo_game
   \<and> map fst (players demo_late) = map fst (players demo_game) @ [''d'']"
proof -
  have h1: "reachable demo_late \<and> state demo_late = Playing"
    using reachable_demo_late by (simp add: demo_late_eq)
  have h2: "reachable demo_lobby \<and> state demo_lobby = Lobby \<and> ''a'' = hostId demo_lobby"
    using reachable_demo_lobby by (simp add: demo_lobby_def joinRoom_def createRoom_def)
  have h3: "pressPass ''a'' ''b'' demo_game = Inr demo_acked"
    by (simp add: pressPass_def passOffered_def passTurn_def demo_acked_def demo_game_eq Let_def)
  have h4: "''d'' \<notin> set (map fst (players demo_game))" by (simp add: demo_game_eq)
  from turn_pointer_valid[of demo_late] h1
  have c1: "currentTurnIndex demo_late < length (turnOrder demo_late)
      \<and> set (turnOrder demo_late) \<subseteq> set (map fst (players demo_late))" by blast
  from turn_pointer_valid[of demo_lobby "''a''" demo_env] h2
  have c2: "mset (turnOrder demo_game) = mset (map fst (players demo_game))"
    unfolding demo_game_def by blast
  from turn_pointer_valid[of demo_game "''a''" _ "''b''"] h3
  have c3: "turnOrder demo_acked = turnOrder demo_game" by blast
  from turn_pointer_valid[of demo_game "''d''" _ _ "''Dee''"]
  have "map fst (players (joinRoom ''d'' ''Dee'' demo_game)) =
       (if ''d'' \<in> set (map fst (players demo_game)) then map fst (players demo_game)
        else map fst (players demo_game) @ [''d''])" by blast
  with h4 have c4: "map fst (players demo_late) = map fst (players demo_game) @ [''d'']"
    unfolding demo_late_def by (simp only: if_False)
  show ?thesis using h1 h2 h3 c1 c2 c3 c4 by blast
qed

section \<open>The vote tally\<close>

text \<open>The dictionary of counts holds, for each target, the number of votes for it.\<close>

lemma voteCounts_fold:
  fixes acc :: "(string \<times> nat) list"
  defines "step \<equiv> (\<lambda>vId vc. AList.update vId ((case map_of vc vId of None \<Rightarrow> 0 | Some c \<Rightarrow> c) + 1) vc)"
  assumes "distinct (map fst acc)" "\<forall>(k, c) \<in> set acc. 0 < c"
  shows "distinct (map fst (fold step vs acc))
       \<and> (\<forall>(k, c) \<in> set (fold step vs acc). 0 < c)
       \<and> (\<forall>t. (case map_of (fold step vs acc) t of None \<Rightarrow> 0 | Some c \<Rightarrow> c)
               = count_list vs t + (case map_of acc t of None \<Rightarrow> 0 | Some c \<Rightarrow> c))"
  using assms(2,3)
proof (induction vs arbitrary: acc)
  case Nil
  then show ?case by simp
next
  case (Cons v vs)
  let ?acc = "step v acc"
  have d: "distinct (map fst ?acc)"
    using Cons.prems(1) by (simp add: step_def AList.distinct_update)
  have pos: "\<forall>(k, c) \<in> set ?acc. 0 < c"
  proof -
    have "\<And>k c. (k, c) \<in> set ?acc \<Longrightarrow> 0 < c"
    proof -
      fix k c assume "(k, c) \<in> set ?acc"
      then have "map_of ?acc k = Some c" using d by simp
      then show "0 < c"
        using Cons.prems(2)
        by (cases "k = v") (auto simp: step_def AList.update_conv' dest: map_of_SomeD)
    qed
    then show ?thesis by auto
  qed
  have m: "(case map_of ?acc t of None \<Rightarrow> 0 | Some c \<Rightarrow> c)
      = (if t = v then 1 else 0) + (case map_of acc t of None \<Rightarrow> 0 | Some c \<Rightarrow> c)" for t
    by (simp add: step_def AList.update_conv')
  from Cons.IH[OF d pos] show ?case by (simp add: m)
qed

lemma voteCounts_props:
  "distinct (map fst (voteCounts vs))"
  "(t, c) \<in> set (voteCounts vs) \<longleftrightarrow> c = count_list (map snd vs) t \<and> 0 < c"
proof -
  have f: "distinct (map fst (voteCounts vs))
       \<and> (\<forall>(k, c) \<in> set (voteCounts vs). 0 < c)
       \<and> (\<forall>t. (case map_of (voteCounts vs) t of None \<Rightarrow> 0 | Some c \<Rightarrow> c)
               = count_list (map snd vs) t + (case map_of [] t of None \<Rightarrow> 0 | Some c \<Rightarrow> c))"
    unfolding voteCounts_def by (rule voteCounts_fold) simp_all
  from f show d: "distinct (map fst (voteCounts vs))" by simp
  from f have pos: "\<And>k c. (k, c) \<in> set (voteCounts vs) \<Longrightarrow> 0 < c" by auto
  from f have cnt: "(case map_of (voteCounts vs) t of None \<Rightarrow> 0 | Some c \<Rightarrow> c)
      = count_list (map snd vs) t" by simp
  show "(t, c) \<in> set (voteCounts vs) \<longleftrightarrow> c = count_list (map snd vs) t \<and> 0 < c"
  proof
    assume a: "(t, c) \<in> set (voteCounts vs)"
    then have "map_of (voteCounts vs) t = Some c" using d by simp
    with cnt pos[OF a] show "c = count_list (map snd vs) t \<and> 0 < c" by simp
  next
    assume a: "c = count_list (map snd vs) t \<and> 0 < c"
    with cnt have "map_of (voteCounts vs) t = Some c" by (auto split: option.splits)
    then show "(t, c) \<in> set (voteCounts vs)" by (rule map_of_SomeD)
  qed
qed

text \<open>
  The walk over the entries: afterwards \<open>maxVotes\<close> bounds every count, and \<open>votedOutId\<close> is
  the one target that reaches it, or null when none or several do.
\<close>

lemma tally_fold:
  assumes "distinct (map fst es)" "\<forall>(k, c) \<in> set es. 0 < c"
  shows "case fold tally_step es (0, None) of (m, w) \<Rightarrow>
           (\<forall>(k, c) \<in> set es. c \<le> m)
           \<and> (case w of
                 Some t \<Rightarrow> (t, m) \<in> set es \<and> (\<forall>(k, c) \<in> set es. k \<noteq> t \<longrightarrow> c < m)
               | None \<Rightarrow> (es = [] \<and> m = 0)
                         \<or> (\<exists>t1 t2. t1 \<noteq> t2 \<and> (t1, m) \<in> set es \<and> (t2, m) \<in> set es))"
  using assms
proof (induction es rule: rev_induct)
  case Nil
  then show ?case by simp
next
  case (snoc e es)
  obtain t c where e: "e = (t, c)" by (cases e)
  obtain m w where mw: "fold tally_step es (0, None) = (m, w)" by (cases "fold tally_step es (0, None)")
  have t: "t \<notin> fst ` set es" and c: "0 < c" using snoc.prems by (auto simp: e)
  have d: "distinct (map fst es)" "\<forall>(k, c) \<in> set es. 0 < c" using snoc.prems by auto
  from snoc.IH[OF d] mw
  have le: "\<forall>(k, c) \<in> set es. c \<le> m"
    and win: "case w of
                 Some t \<Rightarrow> (t, m) \<in> set es \<and> (\<forall>(k, c) \<in> set es. k \<noteq> t \<longrightarrow> c < m)
               | None \<Rightarrow> (es = [] \<and> m = 0)
                         \<or> (\<exists>t1 t2. t1 \<noteq> t2 \<and> (t1, m) \<in> set es \<and> (t2, m) \<in> set es)"
    by simp_all
  have nk: "\<And>k c'. (k, c') \<in> set es \<Longrightarrow> k \<noteq> t" using t by force
  consider (gt) "m < c" | (eq) "c = m" | (lt) "c < m" by linarith
  then show ?case
  proof cases
    case gt
    then have r: "fold tally_step (es @ [e]) (0, None) = (c, Some t)"
      by (simp add: mw e tally_step_def)
    show ?thesis unfolding r using le gt by (auto simp: e)
  next
    case eq
    then have r: "fold tally_step (es @ [e]) (0, None) = (m, None)"
      by (simp add: mw e tally_step_def)
    have "\<exists>t0. (t0, m) \<in> set es"
      using win eq c by (cases w) auto
    then obtain t0 where t0: "(t0, m) \<in> set es" ..
    then have "t0 \<noteq> t" by (rule nk)
    then have "\<exists>t1 t2. t1 \<noteq> t2 \<and> (t1, m) \<in> set (es @ [e]) \<and> (t2, m) \<in> set (es @ [e])"
      using t0 eq by (intro exI[of _ t0] exI[of _ t]) (simp add: e)
    then show ?thesis unfolding r using le eq by (auto simp: e)
  next
    case lt
    then have r: "fold tally_step (es @ [e]) (0, None) = (m, w)"
      by (simp add: mw e tally_step_def)
    show ?thesis
    proof (cases w)
      case None
      with win lt have "\<exists>t1 t2. t1 \<noteq> t2 \<and> (t1, m) \<in> set es \<and> (t2, m) \<in> set es" by auto
      then have "\<exists>t1 t2. t1 \<noteq> t2 \<and> (t1, m) \<in> set (es @ [e]) \<and> (t2, m) \<in> set (es @ [e])"
        by auto
      then show ?thesis unfolding r using le lt None by (auto simp: e)
    next
      case (Some t0)
      with win have "(t0, m) \<in> set es" "\<forall>(k, c) \<in> set es. k \<noteq> t0 \<longrightarrow> c < m" by simp_all
      then show ?thesis unfolding r using le lt Some by (auto simp: e)
    qed
  qed
qed

text \<open>A target is voted out exactly when it has strictly more votes than every other one.\<close>

lemma votedOut_iff:
  "votedOut vs = Some t \<longleftrightarrow>
     t \<in> snd ` set vs
     \<and> (\<forall>t'. t' \<noteq> t \<longrightarrow> count_list (map snd vs) t' < count_list (map snd vs) t)"
proof -
  let ?es = "voteCounts vs"
  let ?n = "\<lambda>t. count_list (map snd vs) t"
  obtain m w where mw: "fold tally_step ?es (0, None) = (m, w)"
    by (cases "fold tally_step ?es (0, None)")
  have w: "votedOut vs = w" by (simp add: votedOut_def mw)
  have mem: "\<And>t c. (t, c) \<in> set ?es \<longleftrightarrow> c = ?n t \<and> 0 < c" by (rule voteCounts_props(2))
  have pos: "\<forall>(k, c) \<in> set ?es. 0 < c" using mem by auto
  from tally_fold[OF voteCounts_props(1) pos] mw
  have le: "\<forall>(k, c) \<in> set ?es. c \<le> m"
    and win: "case w of
                 Some t \<Rightarrow> (t, m) \<in> set ?es \<and> (\<forall>(k, c) \<in> set ?es. k \<noteq> t \<longrightarrow> c < m)
               | None \<Rightarrow> (?es = [] \<and> m = 0)
                         \<or> (\<exists>t1 t2. t1 \<noteq> t2 \<and> (t1, m) \<in> set ?es \<and> (t2, m) \<in> set ?es)"
    by simp_all
  have inset: "\<And>t. t \<in> snd ` set vs \<longleftrightarrow> 0 < ?n t"
    by (metis count_list_0_iff set_map gr0I not_gr_zero)
  show ?thesis
  proof
    assume "votedOut vs = Some t"
    then have wt: "w = Some t" using w by simp
    with win have tm: "(t, m) \<in> set ?es"
      and others: "\<forall>(k, c) \<in> set ?es. k \<noteq> t \<longrightarrow> c < m" by simp_all
    from tm mem have m: "m = ?n t" "0 < m" by auto
    have "?n t' < ?n t" if "t' \<noteq> t" for t'
    proof (cases "0 < ?n t'")
      case True
      then have "(t', ?n t') \<in> set ?es" using mem by simp
      with others that show ?thesis using m by auto
    next
      case False
      then show ?thesis using m by simp
    qed
    then show "t \<in> snd ` set vs \<and> (\<forall>t'. t' \<noteq> t \<longrightarrow> ?n t' < ?n t)"
      using m inset by simp
  next
    assume a: "t \<in> snd ` set vs \<and> (\<forall>t'. t' \<noteq> t \<longrightarrow> ?n t' < ?n t)"
    then have tin: "(t, ?n t) \<in> set ?es" using mem inset by simp
    with le have tle: "?n t \<le> m" by auto
    have "w = Some t"
    proof (cases w)
      case None
      with win tin obtain t1 t2 where "t1 \<noteq> t2" "(t1, m) \<in> set ?es" "(t2, m) \<in> set ?es"
        by auto
      then obtain t' where "t' \<noteq> t" "(t', m) \<in> set ?es" by metis
      then have "t' \<noteq> t" "?n t' = m" using mem by auto
      with a tle show ?thesis by (metis not_less)
    next
      case (Some t0)
      with win have "(t0, m) \<in> set ?es" by simp
      then have "?n t0 = m" using mem by simp
      with a tle have "t0 = t" by (metis not_less)
      with Some show ?thesis by simp
    qed
    then show "votedOut vs = Some t" using w by simp
  qed
qed

section \<open>Flat scoring\<close>

lemma map_of_map_values:
  "map_of (map (\<lambda>(pid, p). (pid, f pid p)) ps) k = map_option (f k) (map_of ps k)"
  by (induction ps) auto

lemma awardImposters_ok:
  assumes "set is \<subseteq> fst ` set ps" "distinct is"
  shows "\<exists>ps'. awardImposters is ps = Inr ps'
           \<and> (\<forall>k. map_of ps' k =
                 (if k \<in> set is
                  then map_option (\<lambda>p. p\<lparr>score := score p + 20, lastScoreGain := 20\<rparr>) (map_of ps k)
                  else map_of ps k))"
  using assms
proof (induction "is" arbitrary: ps)
  case Nil
  then show ?case by simp
next
  case (Cons i "is")
  from Cons.prems(1) obtain p where p: "map_of ps i = Some p"
    by (metis list.set_intros(1) subsetD weak_map_of_SomeI map_of_eq_None_iff not_Some_eq)
  let ?ps1 = "AList.update i (p\<lparr>score := score p + 20, lastScoreGain := 20\<rparr>) ps"
  have "set is \<subseteq> fst ` set ?ps1" using Cons.prems(1) by (auto simp: AList.dom_update)
  moreover have "distinct is" using Cons.prems(2) by simp
  ultimately obtain ps' where ps': "awardImposters is ?ps1 = Inr ps'"
    and m: "\<forall>k. map_of ps' k =
                 (if k \<in> set is
                  then map_option (\<lambda>p. p\<lparr>score := score p + 20, lastScoreGain := 20\<rparr>) (map_of ?ps1 k)
                  else map_of ?ps1 k)"
    using Cons.IH[of ?ps1] by blast
  have i: "i \<notin> set is" using Cons.prems(2) by simp
  have "awardImposters (i # is) ps = Inr ps'" using p ps' by simp
  moreover have "\<forall>k. map_of ps' k =
                 (if k \<in> set (i # is)
                  then map_option (\<lambda>p. p\<lparr>score := score p + 20, lastScoreGain := 20\<rparr>) (map_of ps k)
                  else map_of ps k)"
    using m i p by (auto simp: AList.update_conv')
  ultimately show ?case by blast
qed

lemma caught_iff:
  "[] \<notin> set (imposterIds r) \<Longrightarrow>
   isImposterCaught r \<longleftrightarrow> (\<exists>v. votedOut (votes r) = Some v \<and> v \<in> set (imposterIds r))"
  by (auto simp: isImposterCaught_def split: option.splits)

lemma calculateResults_scores:
  assumes "set (imposterIds r) \<subseteq> set (map fst (players r))" "distinct (imposterIds r)"
  shows "\<exists>r'. calculateResults env r = Inr r' \<and> state r' = Result
          \<and> (\<forall>pid. map_option score (map_of (players r') pid) =
                map_option (\<lambda>p. score p +
                   (if isImposterCaught r
                    then (if pid \<in> set (imposterIds r) then 0 else 10)
                    else (if pid \<in> set (imposterIds r) then 20 else 0)))
                  (map_of (players r) pid))"
proof (cases "isImposterCaught r")
  case True
  then obtain v where v: "votedOut (votes r) = Some v" "v \<in> set (imposterIds r)"
    by (auto simp: isImposterCaught_def split: option.splits)
  with assms(1) have "v \<in> fst ` set (players r)" by auto
  then obtain vp where vp: "map_of (players r) v = Some vp"
    by (metis map_of_eq_None_iff not_Some_eq)
  let ?ps = "map (\<lambda>(pid, p). if pid \<notin> set (imposterIds r)
                          then (pid, p\<lparr>score := score p + 10, lastScoreGain := 10\<rparr>)
                          else (pid, p))
               (map (\<lambda>(pid, p). (pid, p\<lparr>lastScoreGain := 0\<rparr>)) (players r))"
  have eq: "?ps = map (\<lambda>(pid, p). (pid, if pid \<notin> set (imposterIds r)
                          then p\<lparr>score := score p + 10, lastScoreGain := 10\<rparr>
                          else p\<lparr>lastScoreGain := 0\<rparr>)) (players r)"
    by (induction "players r") (auto simp: case_prod_unfold)
  have r: "calculateResults env r = Inr (publishResult env
              (''Crew Wins! The Imposter ('' @ name vp @ '') was caught!'') ?ps r)"
    using True v vp by (simp add: calculateResults_def Let_def)
  have "map_option score (map_of ?ps pid) =
        map_option (\<lambda>p. score p + (if pid \<in> set (imposterIds r) then 0 else 10))
          (map_of (players r) pid)" for pid
    unfolding eq map_of_map_values by (cases "map_of (players r) pid") auto
  then show ?thesis using True r by (simp add: publishResult_def)
next
  case False
  let ?cl = "map (\<lambda>(pid, p). (pid, p\<lparr>lastScoreGain := 0\<rparr>)) (players r)"
  have keys: "fst ` set ?cl = fst ` set (players r)" by force
  from awardImposters_ok[of "imposterIds r" ?cl] assms keys
  obtain ps' where ps': "awardImposters (imposterIds r) ?cl = Inr ps'"
    and m: "\<forall>k. map_of ps' k =
                 (if k \<in> set (imposterIds r)
                  then map_option (\<lambda>p. p\<lparr>score := score p + 20, lastScoreGain := 20\<rparr>) (map_of ?cl k)
                  else map_of ?cl k)"
    by auto
  have r: "calculateResults env r = Inr (publishResult env
              (''Imposter Wins! They evaded capture. (It was '' @ imposterNames r @ '')'') ps' r)"
    using False ps' by (simp add: calculateResults_def Let_def)
  have "map_option score (map_of ps' pid) =
        map_option (\<lambda>p. score p + (if pid \<in> set (imposterIds r) then 20 else 0))
          (map_of (players r) pid)" for pid
    using m[rule_format, of pid] unfolding map_of_map_values
    by (cases "map_of (players r) pid") auto
  then show ?thesis using False r by (simp add: publishResult_def)
qed

lemma demo_voted_eq: "demo_voted =
  \<lparr>id_room = ''ROOM01'', hostId = ''a'', state = Voting,
    category = ''Food'', word = ''Pasta'', imposterIds = [''c''],
    imposterCount = 1, round = 4, maxRounds = 3,
    players =
      [(''a'', \<lparr>name = ''Ann'', score = 0, lastScoreGain = 0, role = ''Crew'',
                isReady = False, passedTurn = []\<rparr>),
       (''b'', \<lparr>name = ''Bo'', score = 0, lastScoreGain = 0, role = ''Crew'',
                isReady = False, passedTurn = []\<rparr>),
       (''c'', \<lparr>name = ''Cy'', score = 0, lastScoreGain = 0, role = ''Imposter'',
                isReady = False, passedTurn = []\<rparr>)],
    turnOrder = [''b'', ''c'', ''a''], currentTurnIndex = 0,
    votes = [(''a'', ''c''), (''b'', ''c''), (''c'', ''a'')],
    chats =
      [\<lparr>senderId = None, recipientId = None, sender = ''System'',
        msg = ''Game Started! 1 Imposter(s) are among us...'', time = 1000\<rparr>],
    historyLog = []\<rparr>"
  by code_simp

lemma demo_tied_eq: "demo_tied =
  \<lparr>id_room = ''ROOM01'', hostId = ''a'', state = Voting,
    category = ''Food'', word = ''Pasta'', imposterIds = [''c''],
    imposterCount = 1, round = 4, maxRounds = 3,
    players =
      [(''a'', \<lparr>name = ''Ann'', score = 0, lastScoreGain = 0, role = ''Crew'',
                isReady = False, passedTurn = []\<rparr>),
       (''b'', \<lparr>name = ''Bo'', score = 0, lastScoreGain = 0, role = ''Crew'',
                isReady = False, passedTurn = []\<rparr>),
       (''c'', \<lparr>name = ''Cy'', score = 0, lastScoreGain = 0, role = ''Imposter'',
                isReady = False, passedTurn = []\<rparr>)],
    turnOrder = [''b'', ''c'', ''a''], currentTurnIndex = 0,
    votes = [(''a'', ''b''), (''b'', ''a''), (''c'', ''c'')],
    chats =
      [\<lparr>senderId = None, recipientId = None, sender = ''System'',
        msg = ''Game Started! 1 Imposter(s) are among us...'', time = 1000\<rparr>],
    historyLog = []\<rparr>"
  by code_simp

text \<open>
  C3. In a room whose impostor ids are distinct, non-empty ids of players: the target voted
  out is the one with strictly more votes than every other target; when two targets share
  the highest count nobody is voted out and the impostors are not caught; the impostors are
  caught exactly when the target voted out is an impostor id; \<open>calculateResults\<close> then ends
  in the result phase, having added 10 to the score of every player who is not an impostor
  when the impostors are caught, and 20 to the score of every impostor when they are not,
  and nothing to the other scores.
\<close>

theorem vote_tally_outcome:
  assumes "set (imposterIds r) \<subseteq> set (map fst (players r))"
    and "distinct (imposterIds r)"
    and "[] \<notin> set (imposterIds r)"
  shows "(votedOut (votes r) = Some t \<longleftrightarrow>
            t \<in> snd ` set (votes r)
            \<and> (\<forall>t'. t' \<noteq> t \<longrightarrow>
                  count_list (map snd (votes r)) t' < count_list (map snd (votes r)) t))
       \<and> (t1 \<noteq> t2 \<and> t1 \<in> snd ` set (votes r)
            \<and> count_list (map snd (votes r)) t1 = count_list (map snd (votes r)) t2
            \<and> (\<forall>t'. count_list (map snd (votes r)) t' \<le> count_list (map snd (votes r)) t1)
          \<longrightarrow> votedOut (votes r) = None \<and> \<not> isImposterCaught r)
       \<and> (isImposterCaught r \<longleftrightarrow>
            (\<exists>v. votedOut (votes r) = Some v \<and> v \<in> set (imposterIds r)))
       \<and> (\<exists>r'. calculateResults env r = Inr r' \<and> state r' = Result
             \<and> (\<forall>pid. map_option score (map_of (players r') pid) =
                   map_option (\<lambda>p. score p +
                      (if isImposterCaught r
                       then (if pid \<in> set (imposterIds r) then 0 else 10)
                       else (if pid \<in> set (imposterIds r) then 20 else 0)))
                     (map_of (players r) pid)))"
proof (intro conjI)
  let ?n = "\<lambda>t. count_list (map snd (votes r)) t"
  show "votedOut (votes r) = Some t \<longleftrightarrow>
            t \<in> snd ` set (votes r) \<and> (\<forall>t'. t' \<noteq> t \<longrightarrow> ?n t' < ?n t)"
    by (rule votedOut_iff)
  show c: "isImposterCaught r \<longleftrightarrow>
            (\<exists>v. votedOut (votes r) = Some v \<and> v \<in> set (imposterIds r))"
    using assms(3) by (rule caught_iff)
  show "t1 \<noteq> t2 \<and> t1 \<in> snd ` set (votes r) \<and> ?n t1 = ?n t2 \<and> (\<forall>t'. ?n t' \<le> ?n t1)
          \<longrightarrow> votedOut (votes r) = None \<and> \<not> isImposterCaught r"
  proof
    assume a: "t1 \<noteq> t2 \<and> t1 \<in> snd ` set (votes r) \<and> ?n t1 = ?n t2 \<and> (\<forall>t'. ?n t' \<le> ?n t1)"
    have "votedOut (votes r) = None"
    proof (rule ccontr)
      assume "votedOut (votes r) \<noteq> None"
      then obtain t0 where "votedOut (votes r) = Some t0" by auto
      then have lt: "\<forall>t'. t' \<noteq> t0 \<longrightarrow> ?n t' < ?n t0" by (simp add: votedOut_iff)
      from a obtain ti where ti: "ti \<noteq> t0" "?n ti = ?n t1" by metis
      with lt have "?n t1 < ?n t0" by metis
      moreover from a have "?n t0 \<le> ?n t1" by blast
      ultimately show False by simp
    qed
    then show "votedOut (votes r) = None \<and> \<not> isImposterCaught r" using c by simp
  qed
  show "\<exists>r'. calculateResults env r = Inr r' \<and> state r' = Result
             \<and> (\<forall>pid. map_option score (map_of (players r') pid) =
                   map_option (\<lambda>p. score p +
                      (if isImposterCaught r
                       then (if pid \<in> set (imposterIds r) then 0 else 10)
                       else (if pid \<in> set (imposterIds r) then 20 else 0)))
                     (map_of (players r) pid))"
    using assms(1,2) by (rule calculateResults_scores)
qed

theorem vote_tally_outcome_witness:
  "set (imposterIds demo_voted) \<subseteq> set (map fst (players demo_voted))
   \<and> distinct (imposterIds demo_voted) \<and> [] \<notin> set (imposterIds demo_voted)
   \<and> votedOut (votes demo_voted) = Some ''c'' \<and> isImposterCaught demo_voted
   \<and> (\<exists>r'. calculateResults demo_renv demo_voted = Inr r' \<and> state r' = Result
         \<and> map_option score (map_of (players r') ''a'') = Some 10
         \<and> map_option score (map_of (players r') ''b'') = Some 10
         \<and> map_option score (map_of (players r') ''c'') = Some 0)
   \<and> set (imposterIds demo_tied) \<subseteq> set (map fst (players demo_tied))
   \<and> distinct (imposterIds demo_tied) \<and> [] \<notin> set (imposterIds demo_tied)
   \<and> votedOut (votes demo_tied) = None \<and> \<not> isImposterCaught demo_tied
   \<and> (\<exists>r'. calculateResults demo_renv demo_tied = Inr r' \<and> state r' = Result
         \<and> map_option score (map_of (players r') ''a'') = Some 0
         \<and> map_option score (map_of (players r') ''c'') = Some 20)"
proof -
  let ?nv = "\<lambda>t. count_list (map snd (votes demo_voted)) t"
  let ?nt = "\<lambda>t. count_list (map snd (votes demo_tied)) t"
  have hv: "set (imposterIds demo_voted) \<subseteq> set (map fst (players demo_voted))"
    "distinct (imposterIds demo_voted)" "[] \<notin> set (imposterIds demo_voted)"
    by (simp_all add: demo_voted_eq)
  have ht: "set (imposterIds demo_tied) \<subseteq> set (map fst (players demo_tied))"
    "distinct (imposterIds demo_tied)" "[] \<notin> set (imposterIds demo_tied)"
    by (simp_all add: demo_tied_eq)
  note tv = vote_tally_outcome[OF hv, of "''c''" "''a''" "''b''" demo_renv]
  note tt = vote_tally_outcome[OF ht, of "''c''" "''a''" "''b''" demo_renv]
  have "''c'' \<in> snd ` set (votes demo_voted) \<and> (\<forall>t'. t' \<noteq> ''c'' \<longrightarrow> ?nv t' < ?nv ''c'')"
    by (simp add: demo_voted_eq)
  with tv have out: "votedOut (votes demo_voted) = Some ''c''" by blast
  moreover have "''c'' \<in> set (imposterIds demo_voted)" by (simp add: demo_voted_eq)
  ultimately have caught: "isImposterCaught demo_voted" using tv by blast
  from tv obtain r' where r': "calculateResults demo_renv demo_voted = Inr r'" "state r' = Result"
    and s: "\<forall>pid. map_option score (map_of (players r') pid) =
                   map_option (\<lambda>p. score p +
                      (if isImposterCaught demo_voted
                       then (if pid \<in> set (imposterIds demo_voted) then 0 else 10)
                       else (if pid \<in> set (imposterIds demo_voted) then 20 else 0)))
                     (map_of (players demo_voted) pid)" by blast
  have sv: "map_option score (map_of (players r') ''a'') = Some 10"
    "map_option score (map_of (players r') ''b'') = Some 10"
    "map_option score (map_of (players r') ''c'') = Some 0"
    using caught by (simp_all add: s) (simp_all add: demo_voted_eq)
  have "''a'' \<noteq> ''b'' \<and> ''a'' \<in> snd ` set (votes demo_tied)
        \<and> ?nt ''a'' = ?nt ''b'' \<and> (\<forall>t'. ?nt t' \<le> ?nt ''a'')"
    by (auto simp: demo_tied_eq)
  with tt have tie: "votedOut (votes demo_tied) = None \<and> \<not> isImposterCaught demo_tied"
    by blast
  from tt obtain q' where q': "calculateResults demo_renv demo_tied = Inr q'" "state q' = Result"
    and u: "\<forall>pid. map_option score (map_of (players q') pid) =
                   map_option (\<lambda>p. score p +
                      (if isImposterCaught demo_tied
                       then (if pid \<in> set (imposterIds demo_tied) then 0 else 10)
                       else (if pid \<in> set (imposterIds demo_tied) then 20 else 0)))
                     (map_of (players demo_tied) pid)" by blast
  have st: "map_option score (map_of (players q') ''a'') = Some 0"
    "map_option score (map_of (players q') ''c'') = Some 20"
    using tie by (simp_all add: u) (simp_all add: demo_tied_eq)
  show ?thesis using hv ht out caught r' sv tie q' st by blast
qed

section \<open>Refined scoring\<close>

lemma voteCounts_lookup:
  "(case map_of (voteCounts vs) t of None \<Rightarrow> False | Some c \<Rightarrow> k \<le> c)
     \<longleftrightarrow> 0 < count_list (map snd vs) t \<and> k \<le> count_list (map snd vs) t"
proof (cases "map_of (voteCounts vs) t")
  case None
  then have "t \<notin> fst ` set (voteCounts vs)" by (simp add: map_of_eq_None_iff)
  then have "(t, count_list (map snd vs) t) \<notin> set (voteCounts vs)" by force
  then have "\<not> 0 < count_list (map snd vs) t"
    using voteCounts_props(2)[of t "count_list (map snd vs) t" vs] by simp
  with None show ?thesis by simp
next
  case (Some c)
  then have "(t, c) \<in> set (voteCounts vs)" by (rule map_of_SomeD)
  then have "c = count_list (map snd vs) t \<and> 0 < c"
    using voteCounts_props(2)[of t c vs] by simp
  with Some show ?thesis by simp
qed

text \<open>
  C9 as stated fails for an impostor who votes with the majority: \<open>c\<close> votes for \<open>b\<close>, who is
  voted out with three of four votes (the threshold is three), and \<open>c\<close> gains 3, not 3 + 1.
\<close>

theorem majority_bonus_counterexample:
  "''c'' \<in> set (imposterIds demo_framed)
   \<and> votedOut (votes demo_framed) = Some ''b''
   \<and> map_of (votes demo_framed) ''c'' = Some ''b''
   \<and> count_list (map snd (votes demo_framed)) ''b'' = 3
   \<and> length (players demo_framed) div 2 + 1 = 3
   \<and> \<not> isImposterCaught demo_framed
   \<and> scoreGain demo_framed ''c'' = 3
   \<and> scoreGain demo_framed ''c'' \<noteq> 3 + 1"
  by code_simp

text \<open>
  C9, amended. A player who is not an impostor gains 2 for a vote for any impostor and loses
  1 for any other vote, and gains 1 more when the vote went to the target voted out and that
  target has at least \<open>|players| div 2 + 1\<close> votes; an impostor gains 3 when the impostors are
  not caught and nothing otherwise, whatever the impostor voted. \<open>calculateResults2\<close> adds
  this gain to the player's score and stores it as the last gain. The peer-mesh variant has
  other awards: \<open>calculateScores\<close> adds 10 to a player who is not the impostor and voted for
  the impostor, and 5 to the impostor who cast a vote.
\<close>

theorem refined_scoring:
  "(pid \<notin> set (imposterIds r) \<longrightarrow>
      scoreGain r pid =
        (case map_of (votes r) pid of
           None \<Rightarrow> 0
         | Some v \<Rightarrow> if v = [] then 0 else if v \<in> set (imposterIds r) then 2 else - 1)
        + (if \<exists>out. out \<noteq> [] \<and> votedOut (votes r) = Some out
                   \<and> map_of (votes r) pid = Some out
                   \<and> length (players r) div 2 + 1 \<le> count_list (map snd (votes r)) out
           then 1 else 0))
   \<and> (pid \<in> set (imposterIds r) \<longrightarrow>
      scoreGain r pid = (if isImposterCaught r then 0 else 3))
   \<and> (\<forall>r'. calculateResults2 env r = Inr r' \<longrightarrow>
         state r' = Result
         \<and> map_option score (map_of (players r') pid)
             = map_option (\<lambda>p. score p + scoreGain r pid) (map_of (players r) pid)
         \<and> map_option lastScoreGain (map_of (players r') pid)
             = map_option (\<lambda>p. scoreGain r pid) (map_of (players r) pid))
   \<and> players_m (calculateScores s) =
       map (\<lambda>p. p\<lparr>score_m := score_m p
              + (if Some (id_m p) \<noteq> imposterId s \<and> votedFor p \<noteq> None
                    \<and> votedFor p = imposterId s then 10 else 0)
              + (if Some (id_m p) = imposterId s \<and> (\<exists>v. votedFor p = Some v \<and> v \<noteq> [])
                 then 5 else 0)\<rparr>) (players_m s)"
proof (intro conjI impI allI)
  assume ni: "pid \<notin> set (imposterIds r)"
  let ?bonus = "\<lambda>out. out \<noteq> [] \<and> map_of (votes r) pid = Some out
     \<and> (case map_of (voteCounts (votes r)) out of None \<Rightarrow> False
         | Some c \<Rightarrow> length (players r) div 2 + 1 \<le> c)"
  have b: "?bonus out \<longleftrightarrow> out \<noteq> [] \<and> map_of (votes r) pid = Some out
     \<and> length (players r) div 2 + 1 \<le> count_list (map snd (votes r)) out" for out
    unfolding voteCounts_lookup by auto
  have g: "scoreGain r pid =
        (case map_of (votes r) pid of
           None \<Rightarrow> 0
         | Some v \<Rightarrow> if v = [] then 0 else if v \<in> set (imposterIds r) then 2 else - 1)
        + (case votedOut (votes r) of None \<Rightarrow> 0 | Some out \<Rightarrow> if ?bonus out then 1 else 0)"
    using ni by (auto simp: scoreGain_def Let_def split: option.splits)
  show "scoreGain r pid =
        (case map_of (votes r) pid of
           None \<Rightarrow> 0
         | Some v \<Rightarrow> if v = [] then 0 else if v \<in> set (imposterIds r) then 2 else - 1)
        + (if \<exists>out. out \<noteq> [] \<and> votedOut (votes r) = Some out
                   \<and> map_of (votes r) pid = Some out
                   \<and> length (players r) div 2 + 1 \<le> count_list (map snd (votes r)) out
           then 1 else 0)"
    unfolding g b by (cases "votedOut (votes r)") auto
next
  assume "pid \<in> set (imposterIds r)"
  then show "scoreGain r pid = (if isImposterCaught r then 0 else 3)"
    by (simp add: scoreGain_def Let_def)
next
  fix r' assume a: "calculateResults2 env r = Inr r'"
  let ?ps = "map (\<lambda>(pid, p). (pid, p\<lparr>lastScoreGain := scoreGain r pid,
                    score := score p + scoreGain r pid\<rparr>)) (players r)"
  from a have r': "state r' = Result" "players r' = ?ps"
    by (auto simp: calculateResults2_def publishResult_def Let_def
             split: if_splits option.splits)
  show "state r' = Result" by (rule r'(1))
  show "map_option score (map_of (players r') pid)
             = map_option (\<lambda>p. score p + scoreGain r pid) (map_of (players r) pid)"
    unfolding r'(2) map_of_map_values by (cases "map_of (players r) pid") auto
  show "map_option lastScoreGain (map_of (players r') pid)
             = map_option (\<lambda>p. scoreGain r pid) (map_of (players r) pid)"
    unfolding r'(2) map_of_map_values by (cases "map_of (players r) pid") auto
next
  show "players_m (calculateScores s) =
       map (\<lambda>p. p\<lparr>score_m := score_m p
              + (if Some (id_m p) \<noteq> imposterId s \<and> votedFor p \<noteq> None
                    \<and> votedFor p = imposterId s then 10 else 0)
              + (if Some (id_m p) = imposterId s \<and> (\<exists>v. votedFor p = Some v \<and> v \<noteq> [])
                 then 5 else 0)\<rparr>) (players_m s)"
    by (auto simp: calculateScores_def Let_def split: option.splits)
qed

theorem refined_scoring_witness:
  "''a'' \<notin> set (imposterIds demo_framed) \<and> scoreGain demo_framed ''a'' = - 1 + 1
   \<and> ''b'' \<notin> set (imposterIds demo_framed) \<and> scoreGain demo_framed ''b'' = 2 + 0
   \<and> ''c'' \<in> set (imposterIds demo_framed) \<and> scoreGain demo_framed ''c'' = 3
   \<and> (\<exists>r'. calculateResults2 demo_renv demo_framed = Inr r'
         \<and> map_option score (map_of (players r') ''b'') = Some 7
         \<and> map_option score (map_of (players r') ''c'') = Some 8)"
proof -
  have v: "votedOut (votes demo_framed) = Some ''b''"
    "votedOut [(''a'', ''b''), (''c'', ''b''), (''d'', ''b''), (''b'', ''c'')] = Some ''b''"
    by code_simp+
  have nc: "\<not> isImposterCaught demo_framed" by code_simp
  have f: "imposterIds demo_framed = [''c'']"
    "votes demo_framed = [(''a'', ''b''), (''c'', ''b''), (''d'', ''b''), (''b'', ''c'')]"
    "length (players demo_framed) = 4"
    by (simp_all add: demo_framed_def)
  have pb: "map_of (players demo_framed) ''b'' =
      Some \<lparr>name = ''Bo'', score = 5, lastScoreGain = 0, role = ''Crew'',
            isReady = False, passedTurn = [], isRoleRevealed = True\<rparr>"
    and pc: "map_of (players demo_framed) ''c'' =
      Some \<lparr>name = ''Cy'', score = 5, lastScoreGain = 0, role = ''Imposter'',
            isReady = False, passedTurn = [], isRoleRevealed = True\<rparr>"
    by (simp_all add: demo_framed_def)
  have ia: "''a'' \<notin> set (imposterIds demo_framed)" and ib: "''b'' \<notin> set (imposterIds demo_framed)"
    and ic: "''c'' \<in> set (imposterIds demo_framed)" by (simp_all add: f)
  from refined_scoring[where pid="''a''" and r=demo_framed and env=demo_renv] ia
  have a: "scoreGain demo_framed ''a'' = - 1 + 1" by (simp add: v f)
  from refined_scoring[where pid="''b''" and r=demo_framed and env=demo_renv] ib
  have b: "scoreGain demo_framed ''b'' = 2 + 0" by (simp add: v f)
  from refined_scoring[where pid="''c''" and r=demo_framed and env=demo_renv] ic nc
  have c: "scoreGain demo_framed ''c'' = 3" by simp
  obtain r' where r': "calculateResults2 demo_renv demo_framed = Inr r'"
    using nc by (simp add: calculateResults2_def Let_def)
  from refined_scoring[where pid="''b''" and r=demo_framed and env=demo_renv] r' b
  have sb: "map_option score (map_of (players r') ''b'') = Some 7" by (simp add: pb)
  from refined_scoring[where pid="''c''" and r=demo_framed and env=demo_renv] r' c
  have sc: "map_option score (map_of (players r') ''c'') = Some 8" by (simp add: pc)
  show ?thesis using ia ib ic a b c r' sb sc by blast
qed

section \<open>Who writes the room\<close>




section \<open>Joining twice\<close>

text \<open>
  In the peer-mesh variant a JOIN from a sender who is a player already changes nothing,
  and a JOIN from a new sender appends one player with score 0.
\<close>

lemma mesh_join_idempotent:
  assumes "isHost gm"
  shows "sid \<in> id_m ` set (players_m (room_state gm)) \<Longrightarrow>
           handleMessage now draw (ACTION (JOIN n) sid) gm = Inr gm"
    and "sid \<notin> id_m ` set (players_m (room_state gm)) \<Longrightarrow>
           handleMessage now draw (ACTION (JOIN n) sid) gm =
             Inr (gm\<lparr>room_state := (room_state gm)\<lparr>players_m := players_m (room_state gm) @
                    [\<lparr>id_m = sid, name_m = n, isHost_m = False, score_m = 0,
                      passedCount = 0, votedFor = None\<rparr>]\<rparr>\<rparr>)"
proof -
  have fi: "findIndex P xs = None \<longleftrightarrow> (\<forall>x \<in> set xs. \<not> P x)" for P and xs :: "PeerPlayer list"
    by (induction xs) auto
  show "handleMessage now draw (ACTION (JOIN n) sid) gm = Inr gm"
    if "sid \<in> id_m ` set (players_m (room_state gm))"
    using assms that by (auto simp: handleMessage_def Let_def fi)
  show "handleMessage now draw (ACTION (JOIN n) sid) gm =
             Inr (gm\<lparr>room_state := (room_state gm)\<lparr>players_m := players_m (room_state gm) @
                    [\<lparr>id_m = sid, name_m = n, isHost_m = False, score_m = 0,
                      passedCount = 0, votedFor = None\<rparr>]\<rparr>\<rparr>)"
    if "sid \<notin> id_m ` set (players_m (room_state gm))"
    using assms that by (auto simp: handleMessage_def Let_def fi)
qed

text \<open>
  C6 on the document-store variant: \<open>joinRoom\<close> has no membership check. Bo, who holds 10
  points after a round, joins the same room again and is left with a fresh record: score 0.
  The room still holds exactly one record for Bo.
\<close>

theorem joinRoom_rejoin_resets_score:
  "map_of (players demo_result) ''b'' =
     Some \<lparr>name = ''Bo'', score = 10, lastScoreGain = 10, role = ''Crew'', isReady = False,
           passedTurn = []\<rparr>
   \<and> map_of (players (joinRoom ''b'' ''Bo'' demo_result)) ''b'' =
     Some \<lparr>name = ''Bo'', score = 0, lastScoreGain = 0, role = [], isReady = False,
           passedTurn = []\<rparr>
   \<and> map fst (players (joinRoom ''b'' ''Bo'' demo_result)) = map fst (players demo_result)
   \<and> joinRoom ''b'' ''Bo'' demo_result \<noteq> demo_result"
proof -
  have 1: "map_of (players demo_result) ''b'' =
     Some \<lparr>name = ''Bo'', score = 10, lastScoreGain = 10, role = ''Crew'', isReady = False,
           passedTurn = []\<rparr>"
    by (simp add: demo_result_eq)
  have 2: "map_of (players (joinRoom ''b'' ''Bo'' demo_result)) ''b'' =
     Some \<lparr>name = ''Bo'', score = 0, lastScoreGain = 0, role = [], isReady = False,
           passedTurn = []\<rparr>"
    by (simp add: joinRoom_def AList.update_conv' freshPlayer_def)
  have 3: "map fst (players (joinRoom ''b'' ''Bo'' demo_result)) = map fst (players demo_result)"
    by (simp add: joinRoom_def demo_result_eq)
  from 1 2 have "joinRoom ''b'' ''Bo'' demo_result \<noteq> demo_result" by auto
  with 1 2 3 show ?thesis by blast
qed

section \<open>Base64\<close>










section \<open>The stored password\<close>



end
